theory Spec2Isabelle
  imports Complex_Main
begin

section \<open>Shared helpers\<close>

text \<open>
  Failures that the source raises as exceptions are values of one error type, and the
  severity levels shared by events, alerts and tamper reports are one datatype. Console
  output is modelled where the class itself changes what a console call does, which is
  the event logger; in the other classes a console call is taken to return normally and
  to change nothing of the state described here.
\<close>

datatype error =
    AssetTypeNotAllowed string
  | RateLimitExceeded string
  | AccessBlocked
  | HashFailure
  | TamperHandlerFailure
  | DomFailure
  | CallbackFailure
  | TransmissionFailure
  | StackOverflow

datatype Severity = Low | Medium | High | Critical

text \<open>
  Template literals render a number in decimal, and \<open>Number.toString(36)\<close> renders it
  in base 36 (the only two radixes used). Timestamps and counters are integral, so numbers
  are modelled as \<open>int\<close>; \<open>NaN\<close> is not modelled.
\<close>

definition digitChars :: string where
  "digitChars = ''0123456789abcdefghijklmnopqrstuvwxyz''"

fun natToString :: "nat \<Rightarrow> nat \<Rightarrow> string" where
  "natToString b n =
     (if b < 2 \<or> n < b then [digitChars ! n]
      else natToString b (n div b) @ [digitChars ! (n mod b)])"

declare natToString.simps [simp del]

definition numToString :: "nat \<Rightarrow> int \<Rightarrow> string" where
  "numToString b i =
     (if i < 0 then CHR ''-'' # natToString b (nat (- i)) else natToString b (nat i))"

text \<open>\<open>String.prototype.lastIndexOf\<close> for a single character; \<open>None\<close> stands for \<open>-1\<close>.\<close>

fun lastIndexOf :: "char \<Rightarrow> string \<Rightarrow> nat option" where
  "lastIndexOf c [] = None"
| "lastIndexOf c (x # xs) =
     (case lastIndexOf c xs of
        Some i \<Rightarrow> Some (Suc i)
      | None \<Rightarrow> (if x = c then Some 0 else None))"


section \<open>AssetProtectionService: signed, expiring grants\<close>

record AssetProtectionConfig =
  ap_enabled :: bool
  urlExpiration :: int
  maxFileSize :: int
  allowedExtensions :: "string list"
  signatureKey :: string
  proxyEndpoint :: string

record SignedAssetUrl =
  url :: string
  token :: string
  expires :: int
  signature :: string

record AssetAccessLog =
  log_token :: string
  log_timestamp :: int
  log_userAgent :: string
  log_success :: bool
  log_reason :: "string option"

record TokenData =
  originalPath :: string
  td_expires :: int

record AssetProtectionService =
  ap_config :: AssetProtectionConfig
  accessLogs :: "AssetAccessLog list"
  tokenCache :: "string \<rightharpoonup> TokenData"

text \<open>
  The keyed hash \<open>crypto.HmacSHA256(data, key).toString()\<close> comes from the crypto-js
  library; it is the parameter \<open>H\<close> (data first, key second) of every function that signs.
  The clock reading \<open>Date.now()\<close> of a call is the parameter \<open>now\<close>, the random hex
  string of \<open>WordArray.random(16)\<close> is \<open>rnd\<close>, and \<open>nav\<close> is \<open>navigator.userAgent\<close>
  when a navigator exists. A call runs to completion without interruption, and the clock
  readings inside one call are taken to be one value.
\<close>

definition generateSecureToken :: "string \<Rightarrow> int \<Rightarrow> string" where
  "generateSecureToken rnd now = take 32 (numToString 36 now @ rnd)"

definition generateSignature ::
  "(string \<Rightarrow> string \<Rightarrow> string) \<Rightarrow> AssetProtectionConfig \<Rightarrow> string \<Rightarrow> int \<Rightarrow> string \<Rightarrow> string" where
  "generateSignature H cfg tok expiry assetPath =
     H (tok @ '':'' @ numToString 10 expiry @ '':'' @ assetPath) (signatureKey cfg)"

text \<open>
  \<open>filePath.substring(filePath.lastIndexOf('.'))\<close>: with no dot the index is \<open>-1\<close>, which
  \<open>substring\<close> clamps to \<open>0\<close>, so the whole path is returned.
\<close>

definition getFileExtension :: "string \<Rightarrow> string" where
  "getFileExtension filePath =
     (case lastIndexOf CHR ''.'' filePath of None \<Rightarrow> filePath | Some i \<Rightarrow> drop i filePath)"

definition logAccess ::
  "AssetProtectionService \<Rightarrow> string \<Rightarrow> bool \<Rightarrow> string option \<Rightarrow> int \<Rightarrow> string option
     \<Rightarrow> AssetProtectionService" where
  "logAccess svc tok success reason now nav =
     (let entry = \<lparr> log_token = take 8 tok @ ''...'',
                     log_timestamp = now,
                     log_userAgent = (case nav of Some ua \<Rightarrow> ua | None \<Rightarrow> ''server''),
                     log_success = success,
                     log_reason = reason \<rparr>;
          logs = accessLogs svc @ [entry]
      in svc\<lparr> accessLogs := (if length logs > 1000 then tl logs else logs) \<rparr>)"

definition generateSignedUrl ::
  "(string \<Rightarrow> string \<Rightarrow> string) \<Rightarrow> AssetProtectionService \<Rightarrow> string \<Rightarrow> string \<Rightarrow> int
     \<Rightarrow> error + (SignedAssetUrl \<times> AssetProtectionService)" where
  "generateSignedUrl H svc assetPath rnd now =
     (if \<not> ap_enabled (ap_config svc) then
        Inr (\<lparr> url = assetPath, token = '''', expires = 0, signature = '''' \<rparr>, svc)
      else
        let extension = getFileExtension assetPath in
        if extension \<notin> set (allowedExtensions (ap_config svc)) then
          Inl (AssetTypeNotAllowed extension)
        else
          let tok = generateSecureToken rnd now;
              expiry = now + urlExpiration (ap_config svc) * 60 * 1000;
              sig = generateSignature H (ap_config svc) tok expiry assetPath;
              svc' = svc\<lparr> tokenCache :=
                       (tokenCache svc)(tok \<mapsto> \<lparr> originalPath = assetPath, td_expires = expiry \<rparr>) \<rparr>;
              u = proxyEndpoint (ap_config svc) @ ''/'' @ tok @ ''?exp='' @ numToString 10 expiry
                    @ ''&sig='' @ sig
          in Inr (\<lparr> url = u, token = tok, expires = expiry, signature = sig \<rparr>, svc'))"

definition validateSignedUrl ::
  "(string \<Rightarrow> string \<Rightarrow> string) \<Rightarrow> AssetProtectionService \<Rightarrow> string \<Rightarrow> string \<Rightarrow> int \<Rightarrow> int
     \<Rightarrow> string option \<Rightarrow> string option \<times> AssetProtectionService" where
  "validateSignedUrl H svc tok providedSignature expiry now nav =
     (if \<not> ap_enabled (ap_config svc) then (None, svc)
      else
        case tokenCache svc tok of
          None \<Rightarrow> (None, logAccess svc tok False (Some ''Token not found'') now nav)
        | Some tokenData \<Rightarrow>
            if now > expiry \<or> now > td_expires tokenData then
              (None, logAccess (svc\<lparr> tokenCache := (tokenCache svc)(tok := None) \<rparr>)
                       tok False (Some ''Token expired'') now nav)
            else if providedSignature \<noteq>
                      generateSignature H (ap_config svc) tok expiry (originalPath tokenData) then
              (None, logAccess svc tok False (Some ''Invalid signature'') now nav)
            else
              (Some (originalPath tokenData), logAccess svc tok True None now nav))"

text \<open>
  The callback of \<open>startCleanupInterval\<close>, run every five minutes while the service is
  enabled, and the emergency revocation.
\<close>

definition cleanupExpiredTokens :: "AssetProtectionService \<Rightarrow> int \<Rightarrow> AssetProtectionService" where
  "cleanupExpiredTokens svc now =
     svc\<lparr> tokenCache := (\<lambda>t. case tokenCache svc t of
                               None \<Rightarrow> None
                             | Some d \<Rightarrow> if now > td_expires d then None else Some d) \<rparr>"

definition revokeAllTokens :: "AssetProtectionService \<Rightarrow> AssetProtectionService" where
  "revokeAllTokens svc = svc\<lparr> tokenCache := Map.empty \<rparr>"

text \<open>A concrete service and a toy keyed hash, used to run the model on explicit inputs.\<close>

definition demoHmac :: "string \<Rightarrow> string \<Rightarrow> string" where
  "demoHmac d k = k @ ''|'' @ d"

definition demoConfig :: AssetProtectionConfig where
  "demoConfig = \<lparr> ap_enabled = True, urlExpiration = 15, maxFileSize = 52428800,
     allowedExtensions = [''.jpg'', ''.jpeg'', ''.png'', ''.webp'', ''.avif'', ''.glb'',
                          ''.gltf'', ''.json'', ''.bin''],
     signatureKey = ''k'', proxyEndpoint = ''/secure-assets'' \<rparr>"

definition demoService :: AssetProtectionService where
  "demoService = \<lparr> ap_config = demoConfig, accessLogs = [], tokenCache = Map.empty \<rparr>"

definition demoGrant :: SignedAssetUrl where
  "demoGrant = \<lparr> url = ''/secure-assets/0ab?exp=900000&sig=k|0ab:900000:/img/a.png'',
                  token = ''0ab'', expires = 900000,
                  signature = ''k|0ab:900000:/img/a.png'' \<rparr>"

definition demoIssued :: AssetProtectionService where
  "demoIssued = demoService\<lparr> tokenCache :=
     [''0ab'' \<mapsto> \<lparr> originalPath = ''/img/a.png'', td_expires = 900000 \<rparr>] \<rparr>"

section \<open>APIObfuscator: the request rate limiter\<close>

text \<open>
  Of the obfuscator's state only the rate-limit store and the session's \<open>client_id\<close> entry
  (held in \<open>sessionStorage\<close>) take part in \<open>checkRateLimit\<close>.
\<close>

record RateLimitEntry =
  count :: int
  firstRequest :: int
  lastRequest :: int
  blocked :: bool

record APIObfuscator =
  rateLimitStore :: "string \<rightharpoonup> RateLimitEntry"
  sessionClientId :: "string option"

text \<open>
  \<open>getClientId\<close> creates the identifier when \<open>sessionStorage\<close> has none (or an empty one,
  which is falsy); \<open>rnd\<close> is the random suffix drawn for it.
\<close>

definition getClientId :: "APIObfuscator \<Rightarrow> int \<Rightarrow> string \<Rightarrow> string \<times> APIObfuscator" where
  "getClientId ob now rnd =
     (case sessionClientId ob of
        Some (c # cs) \<Rightarrow> (c # cs, ob)
      | _ \<Rightarrow> (let clientId = ''client_'' @ numToString 10 now @ ''_'' @ rnd
             in (clientId, ob\<lparr> sessionClientId := Some clientId \<rparr>)))"

definition windowSize :: int where
  "windowSize = 60000"

definition maxRequests :: int where
  "maxRequests = 100"

text \<open>
  The result is paired with the state because the entry is updated in place before the
  exception is thrown: \<open>Inl\<close> is the thrown error, \<open>Inr ()\<close> a normal return.
\<close>

definition checkRateLimit ::
  "APIObfuscator \<Rightarrow> string \<Rightarrow> int \<Rightarrow> string \<Rightarrow> (error + unit) \<times> APIObfuscator" where
  "checkRateLimit ob0 u now rnd =
     (let (clientId, ob) = getClientId ob0 now rnd;
          key = clientId @ '':'' @ u
      in case rateLimitStore ob key of
           None \<Rightarrow>
             (Inr (), ob\<lparr> rateLimitStore := (rateLimitStore ob)(key \<mapsto>
                \<lparr> count = 1, firstRequest = now, lastRequest = now, blocked = False \<rparr>) \<rparr>)
         | Some entry \<Rightarrow>
             if now - firstRequest entry > windowSize then
               (Inr (), ob\<lparr> rateLimitStore := (rateLimitStore ob)(key \<mapsto>
                  \<lparr> count = 1, firstRequest = now, lastRequest = now, blocked = False \<rparr>) \<rparr>)
             else
               let entry' = entry\<lparr> count := count entry + 1, lastRequest := now \<rparr> in
               if count entry' > maxRequests then
                 (Inl (RateLimitExceeded u),
                  ob\<lparr> rateLimitStore := (rateLimitStore ob)(key \<mapsto> entry'\<lparr> blocked := True \<rparr>) \<rparr>)
               else
                 (Inr (), ob\<lparr> rateLimitStore := (rateLimitStore ob)(key \<mapsto> entry') \<rparr>))"

text \<open>
  A run of requests to one URL, each with its clock reading and random draw; a refused
  request does not stop the later ones.
\<close>

fun checkRateLimitSeq ::
  "APIObfuscator \<Rightarrow> string \<Rightarrow> (int \<times> string) list \<Rightarrow> (error + unit) list \<times> APIObfuscator" where
  "checkRateLimitSeq ob u [] = ([], ob)"
| "checkRateLimitSeq ob u ((now, rnd) # calls) =
     (let (r, ob') = checkRateLimit ob u now rnd;
          (rs, ob'') = checkRateLimitSeq ob' u calls
      in (r # rs, ob''))"

text \<open>The key under which a request to \<open>u\<close> is counted.\<close>

definition rateLimitKey :: "APIObfuscator \<Rightarrow> string \<Rightarrow> int \<Rightarrow> string \<Rightarrow> string" where
  "rateLimitKey ob u now rnd = fst (getClientId ob now rnd) @ '':'' @ u"

definition demoObfuscator :: APIObfuscator where
  "demoObfuscator = \<lparr> rateLimitStore = Map.empty, sessionClientId = Some ''c1'' \<rparr>"

section \<open>DevToolsDetector: probes and their fusion\<close>

record DevToolsDetectionConfig =
  dt_enabled :: bool
  detectionMethods :: "string list"
  warningMessage :: string
  onDetection :: "(string \<Rightarrow> real \<Rightarrow> bool) option"
  blockOnDetection :: bool
  detectionInterval :: int
  confidenceThreshold :: real

record DetectionResult =
  detected :: bool
  dr_method :: string
  confidence :: real
  dr_timestamp :: int

text \<open>
  The detector's fields, followed by the effects it has on its surroundings: the calls made
  to the registered \<open>onDetection\<close> handler (in order), the number of warning overlays shown,
  and whether the page body was replaced by the block screen. A configured handler is a
  function that tells whether the call returns normally (\<open>True\<close>) or throws.
\<close>

record DevToolsDetector =
  dt_config :: DevToolsDetectionConfig
  isDetecting :: bool
  lastDetection :: "DetectionResult option"
  detectionHistory :: "DetectionResult list"
  warningShown :: bool
  onDetectionCalls :: "(string \<times> real) list"
  warningsDisplayed :: nat
  pageBlocked :: bool

text \<open>
  What the probes measure in the browser during one tick. Confidences are JavaScript
  doubles; they are modelled as reals, which orders them as the comparisons do.
\<close>

record ProbeEnv =
  timingDuration :: real
  outerWidth :: real
  innerWidth :: real
  outerHeight :: real
  innerHeight :: real
  consoleLogCalled :: "bool option"
  debuggerDuration :: real

definition timingBasedDetection :: "ProbeEnv \<Rightarrow> int \<Rightarrow> DetectionResult" where
  "timingBasedDetection env ts =
     \<lparr> detected = (timingDuration env > 10), dr_method = ''timing'',
       confidence = min (timingDuration env / 50) 1, dr_timestamp = ts \<rparr>"

definition resizeBasedDetection :: "ProbeEnv \<Rightarrow> int \<Rightarrow> DetectionResult" where
  "resizeBasedDetection env ts =
     (let threshold = 160;
          widthDiff = outerWidth env - innerWidth env;
          heightDiff = outerHeight env - innerHeight env;
          det = (heightDiff > threshold \<or> widthDiff > threshold)
      in \<lparr> detected = det, dr_method = ''resize'',
           confidence = (if det then min ((max heightDiff widthDiff - threshold) / 200) 1 else 0),
           dr_timestamp = ts \<rparr>)"

text \<open>
  \<open>consoleLogCalled = None\<close> stands for an exception inside the probe's own
  \<open>try\<close> block, which the probe turns into a detection of confidence \<open>0.6\<close>.
\<close>

definition consoleBasedDetection :: "ProbeEnv \<Rightarrow> int \<Rightarrow> DetectionResult" where
  "consoleBasedDetection env ts =
     (case consoleLogCalled env of
        Some opened \<Rightarrow>
          \<lparr> detected = opened, dr_method = ''console'',
            confidence = (if opened then 7 / 10 else 0), dr_timestamp = ts \<rparr>
      | None \<Rightarrow>
          \<lparr> detected = True, dr_method = ''console'', confidence = 6 / 10, dr_timestamp = ts \<rparr>)"

definition debuggerBasedDetection :: "ProbeEnv \<Rightarrow> int \<Rightarrow> DetectionResult" where
  "debuggerBasedDetection env ts =
     (let det = (debuggerDuration env > 100)
      in \<lparr> detected = det, dr_method = ''debugger'',
           confidence = (if det then min (debuggerDuration env / 1000) 1 else 0),
           dr_timestamp = ts \<rparr>)"

definition detectByMethod :: "ProbeEnv \<Rightarrow> int \<Rightarrow> string \<Rightarrow> DetectionResult option" where
  "detectByMethod env ts m =
     (if m = ''timing'' then Some (timingBasedDetection env ts)
      else if m = ''resize'' then Some (resizeBasedDetection env ts)
      else if m = ''console'' then Some (consoleBasedDetection env ts)
      else if m = ''debugger'' then Some (debuggerBasedDetection env ts)
      else None)"

definition showWarning :: "DevToolsDetector \<Rightarrow> DevToolsDetector" where
  "showWarning d = d\<lparr> warningsDisplayed := Suc (warningsDisplayed d) \<rparr>"

definition blockAccess :: "DevToolsDetector \<Rightarrow> (error + unit) \<times> DevToolsDetector" where
  "blockAccess d = (Inl AccessBlocked, d\<lparr> pageBlocked := True \<rparr>)"

definition handleDetection ::
  "DevToolsDetector \<Rightarrow> DetectionResult \<Rightarrow> (error + unit) \<times> DevToolsDetector" where
  "handleDetection d0 detection =
     (let d1 = d0\<lparr> lastDetection := Some detection \<rparr> in
      case onDetection (dt_config d1) of
        Some cb \<Rightarrow>
          (let d2 = d1\<lparr> onDetectionCalls :=
                      onDetectionCalls d1 @ [(dr_method detection, confidence detection)] \<rparr>
           in if \<not> cb (dr_method detection) (confidence detection) then (Inl CallbackFailure, d2)
              else
                let d3 = (if \<not> warningShown d2 then (showWarning d2)\<lparr> warningShown := True \<rparr>
                          else d2)
                in if blockOnDetection (dt_config d3) then blockAccess d3 else (Inr (), d3))
      | None \<Rightarrow>
          (let d3 = (if \<not> warningShown d1 then (showWarning d1)\<lparr> warningShown := True \<rparr>
                     else d1)
           in if blockOnDetection (dt_config d3) then blockAccess d3 else (Inr (), d3)))"

text \<open>
  The pieces of \<open>runDetection\<close>: the probe loop, the filter and the \<open>reduce\<close> (which,
  called without an initial value, starts from the first element). The loop skips a probe
  that throws; the four probes above have no failing step of their own, so every
  configured method with a known name yields a result.
\<close>

definition probeResults :: "DevToolsDetectionConfig \<Rightarrow> ProbeEnv \<Rightarrow> int \<Rightarrow> DetectionResult list" where
  "probeResults cfg env ts = List.map_filter (detectByMethod env ts) (detectionMethods cfg)"

definition highConfidenceDetections ::
  "DevToolsDetectionConfig \<Rightarrow> DetectionResult list \<Rightarrow> DetectionResult list" where
  "highConfidenceDetections cfg results =
     filter (\<lambda>r. detected r \<and> confidence r \<ge> confidenceThreshold cfg) results"

definition bestDetection :: "DetectionResult list \<Rightarrow> DetectionResult" where
  "bestDetection hs =
     foldl (\<lambda>best current. if confidence current > confidence best then current else best)
       (hd hs) (tl hs)"

definition runDetection ::
  "DevToolsDetector \<Rightarrow> ProbeEnv \<Rightarrow> int \<Rightarrow> (error + unit) \<times> DevToolsDetector" where
  "runDetection d env ts =
     (let results = probeResults (dt_config d) env ts;
          high = highConfidenceDetections (dt_config d) results;
          (r, d1) = (if length high > 0 then handleDetection d (bestDetection high)
                     else (Inr (), d))
      in case r of
           Inl e \<Rightarrow> (Inl e, d1)
         | Inr _ \<Rightarrow>
             (let hist = detectionHistory d1 @ results
              in (Inr (), d1\<lparr> detectionHistory :=
                               (if length hist > 10 then drop (length hist - 10) hist
                                else hist) \<rparr>)))"

definition demoDetector :: DevToolsDetector where
  "demoDetector =
     \<lparr> dt_config = \<lparr> dt_enabled = True,
                     detectionMethods = [''timing'', ''resize'', ''console'', ''debugger''],
                     warningMessage = ''Developer tools detected.'',
                     onDetection = Some (\<lambda>m c. True), blockOnDetection = False,
                     detectionInterval = 1000, confidenceThreshold = 8 / 10 \<rparr>,
       isDetecting = True, lastDetection = None, detectionHistory = [],
       warningShown = False, onDetectionCalls = [], warningsDisplayed = 0,
       pageBlocked = False \<rparr>"

definition demoProbeEnv :: ProbeEnv where
  "demoProbeEnv =
     \<lparr> timingDuration = 45, outerWidth = 1200, innerWidth = 1200, outerHeight = 800,
       innerHeight = 700, consoleLogCalled = Some False, debuggerDuration = 950 \<rparr>"

section \<open>IntegrityVerifier: the periodic integrity check\<close>

datatype HashAlgorithm = SHA256 | SHA512 | MD5

record IntegrityCheck =
  ic_hash :: string
  ic_timestamp :: int
  verified :: bool
  failureCount :: int

record TamperEvent =
  te_type :: string
  te_timestamp :: int
  expectedHash :: string
  actualHash :: string
  location :: string
  te_severity :: Severity

text \<open>
  The configured \<open>onTamperDetected\<close> handler is a function that tells whether the call
  returns normally (\<open>True\<close>) or throws.
\<close>

record IntegrityConfig =
  iv_enabled :: bool
  checkInterval :: int
  maxFailures :: int
  onTamperDetected :: "TamperEvent \<Rightarrow> bool"
  hashAlgorithm :: HashAlgorithm
  checksumSalt :: string

record CodeElement =
  el_id :: string
  el_content :: string

text \<open>
  The verifier's fields, followed by its effects: the events handed to the tamper handler
  and whether the page was replaced by the security notice (production builds only).
\<close>

record IntegrityVerifier =
  iv_config :: IntegrityConfig
  checks :: "string \<rightharpoonup> IntegrityCheck"
  isVerifying :: bool
  buildTimeHashes :: "string \<rightharpoonup> string"
  tamperHandlerCalls :: "TamperEvent list"
  securityNoticeShown :: bool

text \<open>
  The digests come from the crypto-js library: \<open>digest alg s\<close> is the hex digest, or
  \<open>None\<close> when the library call throws.
\<close>

definition generateHash ::
  "(HashAlgorithm \<Rightarrow> string \<Rightarrow> string option) \<Rightarrow> IntegrityConfig \<Rightarrow> string \<Rightarrow> string
     \<Rightarrow> string option" where
  "generateHash digest cfg content identifier =
     (let saltedContent = content @ checksumSalt cfg @ identifier
      in case hashAlgorithm cfg of
           SHA256 \<Rightarrow> digest SHA256 saltedContent
         | SHA512 \<Rightarrow> digest SHA512 saltedContent
         | MD5 \<Rightarrow> digest MD5 saltedContent)"

definition handleCriticalTamperDetection :: "bool \<Rightarrow> IntegrityVerifier \<Rightarrow> IntegrityVerifier" where
  "handleCriticalTamperDetection isProd iv =
     (if isProd then iv\<lparr> securityNoticeShown := True \<rparr> else iv)"

definition handleIntegrityFailure ::
  "IntegrityVerifier \<Rightarrow> string \<Rightarrow> string \<Rightarrow> string \<Rightarrow> int \<Rightarrow> bool
     \<Rightarrow> (error + unit) \<times> IntegrityVerifier" where
  "handleIntegrityFailure iv elementId expected actual now isProd =
     (let fc = (case checks iv elementId of
                  None \<Rightarrow> 1
                | Some c \<Rightarrow> (if failureCount c = 0 then 1 else failureCount c));
          tamperEvent = \<lparr> te_type = ''integrity_failure'', te_timestamp = now,
                          expectedHash = expected, actualHash = actual, location = elementId,
                          te_severity = (if fc \<ge> maxFailures (iv_config iv) then Critical
                                         else Medium) \<rparr>;
          iv1 = iv\<lparr> tamperHandlerCalls := tamperHandlerCalls iv @ [tamperEvent] \<rparr>
      in if \<not> onTamperDetected (iv_config iv) tamperEvent then (Inl TamperHandlerFailure, iv1)
         else if fc \<ge> maxFailures (iv_config iv)
              then (Inr (), handleCriticalTamperDetection isProd iv1)
              else (Inr (), iv1))"

text \<open>
  A missing baseline entry, or an empty one (falsy), makes the element a first-seen
  element whose current hash is adopted.
\<close>

definition verifyElement ::
  "(HashAlgorithm \<Rightarrow> string \<Rightarrow> string option) \<Rightarrow> IntegrityVerifier \<Rightarrow> CodeElement \<Rightarrow> int \<Rightarrow> bool
     \<Rightarrow> (error + bool) \<times> IntegrityVerifier" where
  "verifyElement digest iv element now isProd =
     (case generateHash digest (iv_config iv) (el_content element) (el_id element) of
        None \<Rightarrow> (Inl HashFailure, iv)
      | Some currentHash \<Rightarrow>
          (case buildTimeHashes iv (el_id element) of
             Some (c # cs) \<Rightarrow>
               (let expected = c # cs;
                    isValid = (currentHash = expected);
                    prev = (case checks iv (el_id element) of
                              None \<Rightarrow> 0 | Some ch \<Rightarrow> failureCount ch);
                    chk = \<lparr> ic_hash = currentHash, ic_timestamp = now, verified = isValid,
                            failureCount = (if isValid then 0 else prev + 1) \<rparr>;
                    iv1 = iv\<lparr> checks := (checks iv)(el_id element \<mapsto> chk) \<rparr>
                in if \<not> isValid then
                     (case handleIntegrityFailure iv1 (el_id element) expected currentHash now isProd of
                        (Inl e, iv2) \<Rightarrow> (Inl e, iv2)
                      | (Inr _, iv2) \<Rightarrow> (Inr isValid, iv2))
                   else (Inr isValid, iv1))
           | _ \<Rightarrow>
               (Inr True,
                iv\<lparr> buildTimeHashes := (buildTimeHashes iv)(el_id element \<mapsto> currentHash) \<rparr>)))"

text \<open>The \<open>for\<close> loop of \<open>performIntegrityCheck\<close>; an exception leaves the loop.\<close>

fun verifyElements ::
  "(HashAlgorithm \<Rightarrow> string \<Rightarrow> string option) \<Rightarrow> IntegrityVerifier \<Rightarrow> CodeElement list \<Rightarrow> bool
     \<Rightarrow> int \<Rightarrow> bool \<Rightarrow> (error + bool) \<times> IntegrityVerifier" where
  "verifyElements digest iv [] allValid now isProd = (Inr allValid, iv)"
| "verifyElements digest iv (element # rest) allValid now isProd =
     (case verifyElement digest iv element now isProd of
        (Inl e, iv') \<Rightarrow> (Inl e, iv')
      | (Inr isValid, iv') \<Rightarrow>
          verifyElements digest iv' rest (if \<not> isValid then False else allValid) now isProd)"

text \<open>
  \<open>codeElements\<close> is the outcome of \<open>getCodeElements\<close>, which reads the document and runs
  inside the \<open>try\<close> block. The \<open>catch\<close> clause turns every exception into the result
  \<open>false\<close>, and the \<open>finally\<close> clause clears \<open>isVerifying\<close>.
\<close>

definition performIntegrityCheck ::
  "(HashAlgorithm \<Rightarrow> string \<Rightarrow> string option) \<Rightarrow> IntegrityVerifier
     \<Rightarrow> error + CodeElement list \<Rightarrow> int \<Rightarrow> bool \<Rightarrow> (error + bool) \<times> IntegrityVerifier" where
  "performIntegrityCheck digest iv codeElements now isProd =
     (if isVerifying iv then (Inr True, iv)
      else
        let iv1 = iv\<lparr> isVerifying := True \<rparr> in
        case codeElements of
          Inl e \<Rightarrow> (Inr False, iv1\<lparr> isVerifying := False \<rparr>)
        | Inr elements \<Rightarrow>
            (case verifyElements digest iv1 elements True now isProd of
               (Inl e, iv2) \<Rightarrow> (Inr False, iv2\<lparr> isVerifying := False \<rparr>)
             | (Inr allValid, iv2) \<Rightarrow> (Inr allValid, iv2\<lparr> isVerifying := False \<rparr>)))"

text \<open>
  A concrete verifier: the digest of the demonstration fails on salted content starting
  with \<open>!\<close> and is the identity otherwise. Element \<open>b\<close> has a baseline that its content
  does not match.
\<close>

definition demoDigest :: "HashAlgorithm \<Rightarrow> string \<Rightarrow> string option" where
  "demoDigest alg s = (case s of [] \<Rightarrow> Some ''h'' | c # cs \<Rightarrow> if c = CHR ''!'' then None else Some s)"

definition demoVerifier :: IntegrityVerifier where
  "demoVerifier =
     \<lparr> iv_config = \<lparr> iv_enabled = True, checkInterval = 30000, maxFailures = 3,
                     onTamperDetected = (\<lambda>e. True), hashAlgorithm = SHA256,
                     checksumSalt = ''s'' \<rparr>,
       checks = Map.empty, isVerifying = False,
       buildTimeHashes = [''a'' \<mapsto> ''xsa'', ''b'' \<mapsto> ''old''],
       tamperHandlerCalls = [], securityNoticeShown = False \<rparr>"

definition demoElementA :: CodeElement where
  "demoElementA = \<lparr> el_id = ''a'', el_content = ''!x'' \<rparr>"

definition demoElementB :: CodeElement where
  "demoElementB = \<lparr> el_id = ''b'', el_content = ''new'' \<rparr>"

section \<open>SecurityMonitor: metrics and threat level\<close>

record SecurityAlert =
  sa_id :: string
  sa_type :: string
  sa_severity :: Severity
  sa_message :: string
  sa_details :: "(string \<times> string) list"
  sa_timestamp :: int
  acknowledged :: bool

text \<open>The report of \<open>APIObfuscator.getStats()\<close>, which \<open>updateMetrics\<close> stores as it is.\<close>

record ApiStats =
  endpointMappings :: nat
  fieldMappings :: nat
  rateLimitEntries :: nat
  activeBlocks :: nat

record PerformanceImpact =
  averageOverhead :: int
  peakOverhead :: int
  memoryUsage :: int

record SecurityMetrics =
  uptime :: int
  totalEvents :: nat
  eventsByType :: "string \<rightharpoonup> nat"
  devToolsDetections :: nat
  assetProtectionEvents :: nat
  apiObfuscationStats :: ApiStats
  performanceImpact :: PerformanceImpact
  threatLevel :: Severity

record SecurityMonitor =
  sm_startTime :: int
  alerts :: "SecurityAlert list"
  metrics :: "SecurityMetrics option"

definition countEventsByType :: "SecurityAlert list \<Rightarrow> (string \<rightharpoonup> nat)" where
  "countEventsByType al =
     foldl (\<lambda>m a. m(sa_type a \<mapsto> (case m (sa_type a) of None \<Rightarrow> 0 | Some n \<Rightarrow> n) + 1))
       Map.empty al"

definition updateMetrics :: "SecurityMonitor \<Rightarrow> int \<Rightarrow> ApiStats \<Rightarrow> SecurityMonitor" where
  "updateMetrics sm now stats =
     (let byType = countEventsByType (alerts sm);
          criticalAlerts = length (filter (\<lambda>a. sa_severity a = Critical) (alerts sm));
          highAlerts = length (filter (\<lambda>a. sa_severity a = High) (alerts sm));
          level = (if criticalAlerts > 0 then Critical
                   else if highAlerts > 2 then High
                   else if length (alerts sm) > 10 then Medium
                   else Low)
      in sm\<lparr> metrics := Some
           \<lparr> uptime = now - sm_startTime sm,
             totalEvents = length (alerts sm),
             eventsByType = byType,
             devToolsDetections = (case byType ''devtools_detected'' of None \<Rightarrow> 0 | Some n \<Rightarrow> n),
             assetProtectionEvents = (case byType ''asset_access_denied'' of None \<Rightarrow> 0 | Some n \<Rightarrow> n),
             apiObfuscationStats = stats,
             performanceImpact = \<lparr> averageOverhead = 5, peakOverhead = 15, memoryUsage = 2048 \<rparr>,
             threatLevel = level \<rparr> \<rparr>)"

definition getMetrics :: "SecurityMonitor \<Rightarrow> int \<Rightarrow> ApiStats \<Rightarrow> SecurityMetrics option \<times> SecurityMonitor" where
  "getMetrics sm now stats = (let sm' = updateMetrics sm now stats in (metrics sm', sm'))"

section \<open>SecurityEventLogger: batching, retry and local fallback\<close>

text \<open>
  Event details are open JavaScript objects. The values that occur are told apart by
  their shape and their truthiness; objects and arrays are copied where JavaScript would
  share them.
\<close>

datatype JsValue =
    JUndefined
  | JNull
  | JBool bool
  | JNum int
  | JStr string
  | JError error
  | JArr "JsValue list"
  | JObj "(string \<times> JsValue) list"

fun truthy :: "JsValue \<Rightarrow> bool" where
  "truthy JUndefined = False"
| "truthy JNull = False"
| "truthy (JBool b) = b"
| "truthy (JNum n) = (n \<noteq> 0)"
| "truthy (JStr s) = (s \<noteq> [])"
| "truthy (JError e) = True"
| "truthy (JArr xs) = True"
| "truthy (JObj ps) = True"

definition getProperty :: "(string \<times> JsValue) list \<Rightarrow> string \<Rightarrow> JsValue" where
  "getProperty obj k = (case map_of obj k of None \<Rightarrow> JUndefined | Some v \<Rightarrow> v)"

fun setProperty :: "string \<Rightarrow> JsValue \<Rightarrow> (string \<times> JsValue) list \<Rightarrow> (string \<times> JsValue) list" where
  "setProperty k v [] = [(k, v)]"
| "setProperty k v ((k', v') # ps) =
     (if k' = k then (k, v) # ps else (k', v') # setProperty k v ps)"

fun severityName :: "Severity \<Rightarrow> string" where
  "severityName Low = ''low''"
| "severityName Medium = ''medium''"
| "severityName High = ''high''"
| "severityName Critical = ''critical''"

record SecurityEvent =
  ev_id :: string
  ev_type :: string
  ev_severity :: Severity
  ev_timestamp :: int
  ev_source :: string
  ev_details :: "(string \<times> JsValue) list"
  ev_userAgent :: string
  ev_sessionId :: string
  ev_fingerprint :: string

record EventBatch =
  events :: "SecurityEvent list"
  batchId :: string
  eb_timestamp :: int
  eb_sessionId :: string

record SecurityEventLoggerConfig =
  lg_enabled :: bool
  endpoint :: "string option"
  apiKey :: "string option"
  batchSize :: int
  flushInterval :: int
  maxRetries :: int
  retryDelay :: int
  localStorageKey :: string
  fingerprintingEnabled :: bool
  encryptionEnabled :: bool

text \<open>
  The logger's fields come first. \<open>flushTimerArmed\<close> says that the interval timer of
  \<open>startPeriodicFlush\<close> is running, and \<open>consoleWrapped\<close> that \<open>console.log\<close>,
  \<open>console.warn\<close> and \<open>console.error\<close> are the wrappers of \<open>setupConsoleMonitoring\<close>,
  which call \<open>logEvent\<close> before the original method; the constructor sets both.

  Then what the logger acts on: the browser's \<open>localStorage\<close> (the JSON text under a key
  is modelled by the batch list it encodes, and storage is taken to accept every write),
  the batches the server accepted, the batches handed to \<open>sendBeacon\<close>, the batches
  created by \<open>flush\<close> (in order), the batches whose transmission \<open>flush\<close> or the retry
  callback is awaiting, and the number of retry timers that are armed.
\<close>

record SecurityEventLogger =
  lg_config :: SecurityEventLoggerConfig
  eventQueue :: "SecurityEvent list"
  lg_sessionId :: string
  lg_fingerprint :: string
  isOnline :: bool
  retryQueue :: "EventBatch list"
  flushTimerArmed :: bool
  consoleWrapped :: bool
  localStorage :: "string \<rightharpoonup> EventBatch list"
  delivered :: "EventBatch list"
  beaconed :: "EventBatch list"
  flushedBatches :: "EventBatch list"
  inFlight :: "EventBatch list"
  retryInFlight :: "EventBatch list"
  pendingRetryTimers :: nat

text \<open>
  What a run of synchronous code reads from its surroundings: the clock, the user agent,
  and the random suffixes of new event ids and batch ids. A call uses the suffixes at
  index \<open>0\<close> and hands the rest to the calls nested in it.
\<close>

record CallEnv =
  env_now :: int
  env_eventRnd :: "nat \<Rightarrow> string"
  env_batchRnd :: "nat \<Rightarrow> string"
  env_userAgent :: string

definition nestedEnv :: "CallEnv \<Rightarrow> CallEnv" where
  "nestedEnv env = env\<lparr> env_eventRnd := (\<lambda>i. env_eventRnd env (Suc i)),
                         env_batchRnd := (\<lambda>i. env_batchRnd env (Suc i)) \<rparr>"

definition storeLocally :: "SecurityEventLogger \<Rightarrow> EventBatch \<Rightarrow> SecurityEventLogger" where
  "storeLocally lg batch =
     (let k = localStorageKey (lg_config lg);
          existingBatches = (case localStorage lg k of None \<Rightarrow> [] | Some bs \<Rightarrow> bs) @ [batch];
          kept = (if length existingBatches > 100
                  then drop (length existingBatches - 100) existingBatches
                  else existingBatches)
      in lg\<lparr> localStorage := (localStorage lg)(k \<mapsto> kept) \<rparr>)"

text \<open>
  \<open>sendBatch\<close> is asynchronous. Its part up to the \<open>await\<close> of \<open>fetch\<close> runs inside the
  caller: without an endpoint (absent or empty) the batch goes to local storage and the
  promise is fulfilled; with an endpoint the request is issued. \<open>sendBatchFulfils\<close> tells how
  the promise settles, given whether the request ends in a 2xx response.
\<close>

definition sendBatch :: "SecurityEventLogger \<Rightarrow> EventBatch \<Rightarrow> SecurityEventLogger" where
  "sendBatch lg batch =
     (case endpoint (lg_config lg) of
        Some (c # cs) \<Rightarrow> lg
      | _ \<Rightarrow> storeLocally lg batch)"

definition sendBatchFulfils :: "SecurityEventLogger \<Rightarrow> bool \<Rightarrow> bool" where
  "sendBatchFulfils lg fetchOk =
     (case endpoint (lg_config lg) of
        Some (c # cs) \<Rightarrow> fetchOk
      | _ \<Rightarrow> True)"

text \<open>The record that transmission to a configured endpoint succeeded.\<close>

definition noteDelivered :: "SecurityEventLogger \<Rightarrow> EventBatch \<Rightarrow> SecurityEventLogger" where
  "noteDelivered lg batch =
     (case endpoint (lg_config lg) of
        Some (c # cs) \<Rightarrow> lg\<lparr> delivered := delivered lg @ [batch] \<rparr>
      | _ \<Rightarrow> lg)"

definition scheduleRetry :: "SecurityEventLogger \<Rightarrow> SecurityEventLogger" where
  "scheduleRetry lg = lg\<lparr> pendingRetryTimers := Suc (pendingRetryTimers lg) \<rparr>"

text \<open>The batch object that \<open>flush\<close> builds from the current queue.\<close>

definition makeBatch :: "SecurityEventLogger \<Rightarrow> CallEnv \<Rightarrow> EventBatch" where
  "makeBatch lg env =
     \<lparr> events = eventQueue lg,
       batchId = ''batch_'' @ numToString 10 (env_now env) @ ''_'' @ env_batchRnd env 0,
       eb_timestamp = env_now env,
       eb_sessionId = lg_sessionId lg \<rparr>"

text \<open>
  \<open>flush\<close> is asynchronous as well. This is the part that runs inside the caller, up to
  the \<open>await\<close>: the queue is snapshot and cleared and the batch is handed to \<open>sendBatch\<close>.
  The rest of \<open>flush\<close> is \<open>flushSettled\<close> below.
\<close>

definition flush :: "SecurityEventLogger \<Rightarrow> CallEnv \<Rightarrow> SecurityEventLogger" where
  "flush lg env =
     (if length (eventQueue lg) = 0 \<or> \<not> isOnline lg then lg
      else
        let batch = makeBatch lg env;
            lg1 = lg\<lparr> eventQueue := [],
                      flushedBatches := flushedBatches lg @ [batch],
                      inFlight := inFlight lg @ [batch] \<rparr>
        in sendBatch lg1 batch)"

text \<open>One call of \<open>logEvent\<close>: its arguments and what it reads from its surroundings.\<close>

record LogCall =
  lc_type :: string
  lc_details :: "(string \<times> JsValue) list"
  lc_severity :: Severity
  lc_source :: string
  lc_env :: CallEnv

definition makeEvent :: "SecurityEventLogger \<Rightarrow> LogCall \<Rightarrow> SecurityEvent" where
  "makeEvent lg c =
     \<lparr> ev_id = ''event_'' @ numToString 10 (env_now (lc_env c)) @ ''_''
                 @ env_eventRnd (lc_env c) 0,
       ev_type = lc_type c,
       ev_severity = lc_severity c,
       ev_timestamp = env_now (lc_env c),
       ev_source = lc_source c,
       ev_details = lc_details c,
       ev_userAgent = env_userAgent (lc_env c),
       ev_sessionId = lg_sessionId lg,
       ev_fingerprint = lg_fingerprint lg \<rparr>"

text \<open>
  The message that \<open>logEvent\<close> prints; the padlock sign in front of it is written as its
  four UTF-8 bytes.
\<close>

definition loggedMessage :: "LogCall \<Rightarrow> string" where
  "loggedMessage c =
     [CHR 0xF0, CHR 0x9F, CHR 0x94, CHR 0x92] @ '' Security event logged: '' @ lc_type c
       @ '' ('' @ severityName (lc_severity c) @ '')''"

text \<open>The call that a console wrapper makes to \<open>logEvent\<close> for the method \<open>m\<close>.\<close>

definition consoleAccess :: "string \<Rightarrow> JsValue list \<Rightarrow> CallEnv \<Rightarrow> LogCall" where
  "consoleAccess m args env =
     \<lparr> lc_type = ''console_access'',
       lc_details = [(''method'', JStr m), (''args'', JArr (take 3 args))],
       lc_severity = (if m = ''error'' then Medium else Low),
       lc_source = ''ConsoleMonitor'',
       lc_env = env \<rparr>"

text \<open>
  \<open>logEvent\<close> ends with a \<open>console.log\<close>, and a wrapped console method calls \<open>logEvent\<close>:
  the two are mutually recursive, with nothing in the source that ends the recursion.
  What ends it in the browser is the call stack: the first argument is the number of
  further \<open>logEvent\<close> frames the stack has room for, and a call with no room left throws
  the \<open>RangeError\<close> of a stack overflow. The state is returned with the error because
  everything done before the throw stays done.
\<close>

fun logEvent ::
      "nat \<Rightarrow> SecurityEventLogger \<Rightarrow> LogCall \<Rightarrow> (error + string) \<times> SecurityEventLogger"
  and consoleCall ::
      "nat \<Rightarrow> SecurityEventLogger \<Rightarrow> string \<Rightarrow> JsValue list \<Rightarrow> CallEnv
         \<Rightarrow> (error + unit) \<times> SecurityEventLogger" where
  "logEvent 0 lg c = (Inl StackOverflow, lg)"
| "logEvent (Suc k) lg c =
     (if \<not> lg_enabled (lg_config lg) then (Inr [], lg)
      else
        let event = makeEvent lg c;
            lg1 = lg\<lparr> eventQueue := eventQueue lg @ [event] \<rparr>;
            lg2 = (if lc_severity c = Critical then flush lg1 (lc_env c) else lg1);
            lg3 = (if int (length (eventQueue lg2)) \<ge> batchSize (lg_config lg2)
                   then flush lg2 (lc_env c) else lg2)
        in case consoleCall k lg3 ''log'' [JStr (loggedMessage c), JObj (lc_details c)]
                  (nestedEnv (lc_env c)) of
             (Inl e, lg4) \<Rightarrow> (Inl e, lg4)
           | (Inr _, lg4) \<Rightarrow> (Inr (ev_id event), lg4))"
| "consoleCall k lg m args env =
     (if consoleWrapped lg then
        (case logEvent k lg (consoleAccess m args env) of
           (Inl e, lg') \<Rightarrow> (Inl e, lg')
         | (Inr _, lg') \<Rightarrow> (Inr (), lg'))
      else (Inr (), lg))"

declare logEvent.simps [simp del] consoleCall.simps [simp del]

text \<open>
  The state in which \<open>logEvent\<close> makes its console call: the event is queued and the two
  flush triggers have been tested.
\<close>

definition afterEnqueue :: "SecurityEventLogger \<Rightarrow> LogCall \<Rightarrow> SecurityEventLogger" where
  "afterEnqueue lg c =
     (let lg1 = lg\<lparr> eventQueue := eventQueue lg @ [makeEvent lg c] \<rparr>;
          lg2 = (if lc_severity c = Critical then flush lg1 (lc_env c) else lg1)
      in if int (length (eventQueue lg2)) \<ge> batchSize (lg_config lg2)
         then flush lg2 (lc_env c) else lg2)"

text \<open>
  The rest of \<open>flush\<close>, run when the promise of \<open>sendBatch\<close> for \<open>batch\<close> has settled, on a
  stack with room for \<open>fuel\<close> frames. An exception thrown by the \<open>console.log\<close> of the
  \<open>try\<close> block lands in the \<open>catch\<close> clause like a failed transmission; an exception thrown
  by the \<open>console.error\<close> of the \<open>catch\<close> clause leaves \<open>flush\<close> before the batch is put on
  the retry queue.
\<close>

definition flushSettled ::
  "nat \<Rightarrow> SecurityEventLogger \<Rightarrow> EventBatch \<Rightarrow> bool \<Rightarrow> CallEnv
     \<Rightarrow> (error + unit) \<times> SecurityEventLogger" where
  "flushSettled fuel lg0 batch fetchOk env =
     (let lg = lg0\<lparr> inFlight := remove1 batch (inFlight lg0) \<rparr>;
          (tried, lg1) =
            (if sendBatchFulfils lg fetchOk then
               consoleCall fuel (noteDelivered lg batch) ''log''
                 [JStr ([CHR 0xF0, CHR 0x9F, CHR 0x93, CHR 0x8A] @ '' Security events flushed: ''
                         @ numToString 10 (int (length (events batch))) @ '' events'')]
                 env
             else (Inl TransmissionFailure, lg))
      in case tried of
           Inr _ \<Rightarrow> (Inr (), lg1)
         | Inl e \<Rightarrow>
             (case consoleCall fuel lg1 ''error''
                     [JStr ''Failed to flush security events:'', JError e] (nestedEnv env) of
                (Inl e', lg2) \<Rightarrow> (Inl e', lg2)
              | (Inr _, lg2) \<Rightarrow>
                  (Inr (), scheduleRetry (lg2\<lparr> retryQueue := retryQueue lg2 @ [batch] \<rparr>))))"

text \<open>
  The callback that \<open>scheduleRetry\<close> hands to \<open>setTimeout\<close>. \<open>retryCallback\<close> is its part
  up to the \<open>await\<close>, run when a timer fires; the result is the batch taken from the queue,
  if there was one. \<open>retrySettled\<close> is the rest, run when the transmission has settled.
\<close>

definition retryCallback :: "SecurityEventLogger \<Rightarrow> EventBatch option \<times> SecurityEventLogger" where
  "retryCallback lg0 =
     (let lg = lg0\<lparr> pendingRetryTimers := pendingRetryTimers lg0 - 1 \<rparr> in
      case retryQueue lg of
        [] \<Rightarrow> (None, lg)
      | batch # rest \<Rightarrow>
          (Some batch,
           sendBatch (lg\<lparr> retryQueue := rest, retryInFlight := retryInFlight lg @ [batch] \<rparr>)
             batch))"

definition retrySettled ::
  "nat \<Rightarrow> SecurityEventLogger \<Rightarrow> EventBatch \<Rightarrow> bool \<Rightarrow> CallEnv
     \<Rightarrow> (error + unit) \<times> SecurityEventLogger" where
  "retrySettled fuel lg0 batch fetchOk env =
     (let lg = lg0\<lparr> retryInFlight := remove1 batch (retryInFlight lg0) \<rparr>;
          (tried, lg1) =
            (if sendBatchFulfils lg fetchOk then
               consoleCall fuel (noteDelivered lg batch) ''log''
                 [JStr ([CHR 0xF0, CHR 0x9F, CHR 0x94, CHR 0x84] @ '' Retried security event batch: ''
                         @ batchId batch)]
                 env
             else (Inl TransmissionFailure, lg));
          (handled, lg3) =
            (case tried of
               Inr _ \<Rightarrow> (Inr (), lg1)
             | Inl e \<Rightarrow>
                 (case consoleCall fuel lg1 ''error''
                         [JStr ''Retry failed for batch:'', JStr (batchId batch), JError e]
                         (nestedEnv env) of
                    (Inl e', lg2) \<Rightarrow> (Inl e', lg2)
                  | (Inr _, lg2) \<Rightarrow>
                      (Inr (),
                       case events batch of
                         [] \<Rightarrow> lg2
                       | ev0 # evs \<Rightarrow>
                           if \<not> truthy (getProperty (ev_details ev0) ''retryCount'') then
                             lg2\<lparr> retryQueue := retryQueue lg2 @
                               [batch\<lparr> events := map (\<lambda>ev. ev\<lparr> ev_details :=
                                   setProperty ''retryCount'' (JNum 1) (ev_details ev) \<rparr>)
                                 (events batch) \<rparr>] \<rparr>
                           else lg2)))
      in case handled of
           Inl e \<Rightarrow> (Inl e, lg3)
         | Inr _ \<Rightarrow>
             (Inr (), if length (retryQueue lg3) > 0 then scheduleRetry lg3 else lg3))"

text \<open>The callbacks the constructor registers besides the console wrappers.\<close>

definition periodicFlush :: "SecurityEventLogger \<Rightarrow> CallEnv \<Rightarrow> SecurityEventLogger" where
  "periodicFlush lg env = (if flushTimerArmed lg then flush lg env else lg)"

definition handleOnline :: "SecurityEventLogger \<Rightarrow> CallEnv \<Rightarrow> SecurityEventLogger" where
  "handleOnline lg env = flush (lg\<lparr> isOnline := True \<rparr>) env"

definition handleOffline :: "SecurityEventLogger \<Rightarrow> SecurityEventLogger" where
  "handleOffline lg = lg\<lparr> isOnline := False \<rparr>"

text \<open>\<open>sendBeacon\<close> tells whether \<open>navigator.sendBeacon\<close> exists.\<close>

definition flushBeforeUnload :: "SecurityEventLogger \<Rightarrow> CallEnv \<Rightarrow> bool \<Rightarrow> SecurityEventLogger" where
  "flushBeforeUnload lg env sendBeacon =
     (if length (eventQueue lg) = 0 then lg
      else
        let batch = makeBatch lg env;
            lg1 = (case endpoint (lg_config lg) of
                     Some (c # cs) \<Rightarrow>
                       if sendBeacon then lg\<lparr> beaconed := beaconed lg @ [batch] \<rparr>
                       else storeLocally lg batch
                   | _ \<Rightarrow> storeLocally lg batch)
        in lg1\<lparr> eventQueue := [] \<rparr>)"

text \<open>
  \<open>loadPendingEvents\<close>, which the constructor runs last: batches found in local storage
  move to the retry queue and a retry is scheduled.
\<close>

definition loadPendingEvents :: "SecurityEventLogger \<Rightarrow> SecurityEventLogger" where
  "loadPendingEvents lg =
     (case localStorage lg (localStorageKey (lg_config lg)) of
        None \<Rightarrow> lg
      | Some batches \<Rightarrow>
          (let lg1 = lg\<lparr> retryQueue := retryQueue lg @ batches,
                        localStorage := (localStorage lg)(localStorageKey (lg_config lg) := None) \<rparr>
           in if length (retryQueue lg1) > 0 then scheduleRetry lg1 else lg1))"

text \<open>
  The state a constructor call leaves, given the configuration, the generated session id,
  the fingerprint the browser yields, and the browser's storage: the console methods are
  wrapped, the periodic flush timer runs, and pending batches are loaded. The listeners
  for \<open>online\<close>, \<open>offline\<close> and \<open>beforeunload\<close> are the callbacks above; the listeners
  for script errors and long tasks only call \<open>logEvent\<close>.
\<close>

definition newLogger ::
  "SecurityEventLoggerConfig \<Rightarrow> string \<Rightarrow> string \<Rightarrow> (string \<rightharpoonup> EventBatch list)
     \<Rightarrow> SecurityEventLogger" where
  "newLogger cfg sid fp storage =
     loadPendingEvents
       \<lparr> lg_config = cfg, eventQueue = [], lg_sessionId = sid,
         lg_fingerprint = (if fingerprintingEnabled cfg then fp else []),
         isOnline = True, retryQueue = [], flushTimerArmed = True, consoleWrapped = True,
         localStorage = storage, delivered = [], beaconed = [], flushedBatches = [],
         inFlight = [], retryInFlight = [], pendingRetryTimers = 0 \<rparr>"

text \<open>
  A concrete logger as the constructor leaves it, with an endpoint and a batch size of two,
  and the call \<open>logEvent(t, {}, 'low', 'test')\<close>.
\<close>

definition demoLoggerConfig :: SecurityEventLoggerConfig where
  "demoLoggerConfig =
     \<lparr> lg_enabled = True, endpoint = Some ''https://log.example/events'', apiKey = None,
       batchSize = 2, flushInterval = 30000, maxRetries = 3, retryDelay = 5000,
       localStorageKey = ''sandro_security_events'', fingerprintingEnabled = False,
       encryptionEnabled = False \<rparr>"

definition demoLogger :: SecurityEventLogger where
  "demoLogger = newLogger demoLoggerConfig ''s1'' ''fp'' Map.empty"

definition demoEnv :: CallEnv where
  "demoEnv = \<lparr> env_now = 7, env_eventRnd = (\<lambda>i. ''e''), env_batchRnd = (\<lambda>i. ''b''),
               env_userAgent = ''ua'' \<rparr>"

definition demoCall :: "string \<Rightarrow> LogCall" where
  "demoCall t = \<lparr> lc_type = t, lc_details = [], lc_severity = Low,
                  lc_source = ''test'', lc_env = demoEnv \<rparr>"

text \<open>
  The runs used to exercise the logger. The first call \<open>logEvent('a', {}, 'low', 'test')\<close>
  on the constructed logger, on a stack with room for \<open>n + 2\<close> frames, and the batch that
  call produces first.
\<close>

definition demoAfterFirstCall :: "nat \<Rightarrow> SecurityEventLogger" where
  "demoAfterFirstCall n = snd (logEvent (Suc (Suc n)) demoLogger (demoCall ''a''))"

definition demoFirstBatch :: EventBatch where
  "demoFirstBatch =
     \<lparr> events = [makeEvent demoLogger (demoCall ''a''),
                 makeEvent demoLogger
                   (consoleAccess ''log'' [JStr (loggedMessage (demoCall ''a'')), JObj []]
                      (nestedEnv demoEnv))],
       batchId = ''batch_7_b'', eb_timestamp = 7, eb_sessionId = ''s1'' \<rparr>"

text \<open>
  A logger constructed with \<open>enabled: false\<close> on a storage that holds one batch left by an
  earlier session; with logging disabled the console wrappers return at once. Its retry
  timer fires twice and both transmissions fail.
\<close>

definition demoStoredBatch :: EventBatch where
  "demoStoredBatch =
     \<lparr> events = [makeEvent demoLogger (demoCall ''a'')],
       batchId = ''batch_1_x'', eb_timestamp = 1, eb_sessionId = ''s0'' \<rparr>"

definition demoMarkedBatch :: EventBatch where
  "demoMarkedBatch =
     demoStoredBatch\<lparr> events :=
       [(makeEvent demoLogger (demoCall ''a''))\<lparr> ev_details := [(''retryCount'', JNum 1)] \<rparr>] \<rparr>"

definition demoRestarted :: SecurityEventLogger where
  "demoRestarted =
     newLogger (demoLoggerConfig\<lparr> lg_enabled := False \<rparr>) ''s2'' ''fp''
       [''sandro_security_events'' \<mapsto> [demoStoredBatch]]"

definition demoAfterFirstRetry :: SecurityEventLogger where
  "demoAfterFirstRetry =
     snd (retrySettled (Suc 0) (snd (retryCallback demoRestarted)) demoStoredBatch False demoEnv)"

definition demoAfterSecondRetry :: SecurityEventLogger where
  "demoAfterSecondRetry =
     snd (retrySettled (Suc 0) (snd (retryCallback demoAfterFirstRetry)) demoMarkedBatch False
            demoEnv)"

text \<open>The number of events a logger holds in its queue or has put into batches.\<close>

definition eventsHeld :: "SecurityEventLogger \<Rightarrow> nat" where
  "eventsHeld lg = length (eventQueue lg) + length (concat (map events (flushedBatches lg)))"

section \<open>Verified properties\<close>

subsection \<open>AssetProtectionService\<close>

lemma logAccess_tokenCache: "tokenCache (logAccess svc tok ok r now nav) = tokenCache svc"
  by (simp add: logAccess_def Let_def)

lemma logAccess_config: "ap_config (logAccess svc tok ok r now nav) = ap_config svc"
  by (simp add: logAccess_def Let_def)

lemma logAccess_last:
  "last (accessLogs (logAccess svc tok ok r now nav)) =
     \<lparr> log_token = take 8 tok @ ''...'', log_timestamp = now,
       log_userAgent = (case nav of Some ua \<Rightarrow> ua | None \<Rightarrow> ''server''),
       log_success = ok, log_reason = r \<rparr>"
proof -
  have "last (tl (xs @ [e])) = e" if "length (xs @ [e]) > 1000"
    for xs :: "AssetAccessLog list" and e
    using that by (cases xs) auto
  then show ?thesis
    by (simp add: logAccess_def Let_def)
qed

lemma generateSignedUrl_issued:
  assumes "ap_enabled (ap_config s)"
    and "generateSignedUrl H s path rnd now0 = Inr (g, s1)"
  shows "tokenCache s1 (token g) = Some \<lparr> originalPath = path, td_expires = expires g \<rparr>"
    and "signature g = generateSignature H (ap_config s1) (token g) (expires g) path"
    and "ap_config s1 = ap_config s"
    and "expires g = now0 + urlExpiration (ap_config s) * 60 * 1000"
  using assms
  by (auto simp: generateSignedUrl_def Let_def split: if_splits)

lemma demo_issue:
  "generateSignedUrl demoHmac demoService ''/img/a.png'' ''ab'' 0 = Inr (demoGrant, demoIssued)"
  by (simp add: generateSignedUrl_def demoService_def demoConfig_def getFileExtension_def
      generateSecureToken_def generateSignature_def demoHmac_def demoGrant_def demoIssued_def
      numToString_def natToString.simps digitChars_def Let_def)

lemma demo_enabled: "ap_enabled (ap_config demoService)" "ap_enabled demoConfig"
  by (simp_all add: demoService_def demoConfig_def)

lemma demo_grant_fields:
  "token demoGrant = ''0ab''" "expires demoGrant = 900000"
  "signature demoGrant = ''k|0ab:900000:/img/a.png''"
  by (simp_all add: demoGrant_def)

lemma demo_issued_fields:
  "ap_config demoIssued = demoConfig"
  "tokenCache demoIssued ''0ab'' = Some \<lparr> originalPath = ''/img/a.png'', td_expires = 900000 \<rparr>"
  by (simp_all add: demoIssued_def demoService_def)

lemma demo_signature:
  "generateSignature demoHmac demoConfig ''0ab'' 900000 ''/img/a.png'' = ''k|0ab:900000:/img/a.png''"
  by (simp add: generateSignature_def demoHmac_def demoConfig_def numToString_def
      natToString.simps digitChars_def)

lemma validateSignedUrl_not_found:
  assumes "ap_enabled (ap_config s)" and "tokenCache s tok = None"
  shows "validateSignedUrl H s tok sig expiry now nav =
           (None, logAccess s tok False (Some ''Token not found'') now nav)"
  using assms by (simp add: validateSignedUrl_def)

lemma cleanupExpiredTokens_removes:
  "tokenCache s tok = Some td \<Longrightarrow> td_expires td < now \<Longrightarrow>
     tokenCache (cleanupExpiredTokens s now) tok = None"
  by (simp add: cleanupExpiredTokens_def)

lemma revokeAllTokens_removes: "tokenCache (revokeAllTokens s) tok = None"
  by (simp add: revokeAllTokens_def)

text \<open>
  Claim C1, as the code has it. The expiry test of \<open>validateSignedUrl\<close> is the strict
  \<open>Date.now() > expires\<close>: a grant issued by \<open>generateSignedUrl\<close> whose mapping is still
  in the grant store is refused with reason \<open>Token expired\<close>, and its mapping evicted, at
  every time strictly after its expiry; at every time up to and including the expiry
  instant, validation with the issued signature and expiry returns the original resource
  path.
\<close>

theorem validateSignedUrl_expiry:
  assumes "ap_enabled (ap_config s)"
    and "generateSignedUrl H s path rnd now0 = Inr (g, s1)"
    and "tokenCache s' (token g) = tokenCache s1 (token g)"
    and "ap_config s' = ap_config s1"
  shows "validateSignedUrl H s' (token g) (signature g) (expires g) now nav =
           (if expires g < now
            then (None, logAccess (s'\<lparr> tokenCache := (tokenCache s')(token g := None) \<rparr>)
                          (token g) False (Some ''Token expired'') now nav)
            else (Some path, logAccess s' (token g) True None now nav))"
proof -
  note iss = generateSignedUrl_issued [OF assms(1,2)]
  have en: "ap_enabled (ap_config s')" using assms(1,4) iss(3) by simp
  have tc: "tokenCache s' (token g) = Some \<lparr> originalPath = path, td_expires = expires g \<rparr>"
    using assms(3) iss(1) by simp
  have sg: "signature g = generateSignature H (ap_config s') (token g) (expires g) path"
    using iss(2) assms(4) by simp
  show ?thesis
    using en tc sg by (simp add: validateSignedUrl_def)
qed

theorem validateSignedUrl_expiry_witness:
  "ap_enabled (ap_config demoService)
   \<and> generateSignedUrl demoHmac demoService ''/img/a.png'' ''ab'' 0 = Inr (demoGrant, demoIssued)
   \<and> fst (validateSignedUrl demoHmac demoIssued ''0ab'' ''k|0ab:900000:/img/a.png''
             900000 900001 None) = None
   \<and> tokenCache (snd (validateSignedUrl demoHmac demoIssued ''0ab''
             ''k|0ab:900000:/img/a.png'' 900000 900001 None)) ''0ab'' = None
   \<and> fst (validateSignedUrl demoHmac demoIssued ''0ab'' ''k|0ab:900000:/img/a.png''
             900000 1 None) = Some ''/img/a.png''"
  using validateSignedUrl_expiry [OF demo_enabled(1) demo_issue refl refl, of 900001 None]
    validateSignedUrl_expiry [OF demo_enabled(1) demo_issue refl refl, of 1 None]
    demo_enabled(1) demo_issue
  by (simp add: demo_grant_fields logAccess_tokenCache)

text \<open>
  Claim C1 as stated fails at the boundary instant \<open>now = expiresAt\<close>: the grant issued at
  time \<open>0\<close> with the default 15 minute lifetime expires at \<open>900000\<close>, and a validation at
  exactly \<open>900000\<close> still returns the resource path and keeps the mapping. It also fails
  once the cleanup sweep has removed the expired mapping: a validation after a sweep at
  \<open>900001\<close> is refused with reason \<open>Token not found\<close>, not \<open>Token expired\<close>.
\<close>

theorem validateSignedUrl_expiry_counterexample:
  "generateSignedUrl demoHmac demoService ''/img/a.png'' ''ab'' 0 = Inr (demoGrant, demoIssued)
   \<and> expires demoGrant \<le> 900000
   \<and> fst (validateSignedUrl demoHmac demoIssued (token demoGrant) (signature demoGrant)
             (expires demoGrant) 900000 None) = Some ''/img/a.png''
   \<and> tokenCache (snd (validateSignedUrl demoHmac demoIssued (token demoGrant)
             (signature demoGrant) (expires demoGrant) 900000 None)) (token demoGrant) \<noteq> None
   \<and> log_reason (last (accessLogs (snd (validateSignedUrl demoHmac
             (cleanupExpiredTokens demoIssued 900001) (token demoGrant) (signature demoGrant)
             (expires demoGrant) 900002 None)))) = Some ''Token not found''"
  by (simp add: demo_issue demo_grant_fields validateSignedUrl_def demo_issued_fields
      demo_signature logAccess_tokenCache logAccess_last demo_enabled cleanupExpiredTokens_def)

text \<open>
  Claim C2. For a grant that is stored and not expired, a provided signature that differs
  from the issued one (in one character or more) is refused with reason
  \<open>Invalid signature\<close>; no resource path is returned and the grant stays stored.
\<close>

theorem validateSignedUrl_signature_mismatch:
  assumes "ap_enabled (ap_config s)"
    and "tokenCache s tok = Some td"
    and "now \<le> expiry" and "now \<le> td_expires td"
    and "issued = generateSignature H (ap_config s) tok expiry (originalPath td)"
    and "provided \<noteq> issued"
  shows "validateSignedUrl H s tok provided expiry now nav =
           (None, logAccess s tok False (Some ''Invalid signature'') now nav)"
  using assms by (simp add: validateSignedUrl_def)

theorem validateSignedUrl_signature_mismatch_witness:
  "ap_enabled (ap_config demoIssued)
   \<and> tokenCache demoIssued ''0ab'' = Some \<lparr> originalPath = ''/img/a.png'', td_expires = 900000 \<rparr>
   \<and> (5::int) \<le> 900000
   \<and> (''k|0ab:900000:/img/a.png''[3 := CHR ''1'']) \<noteq> ''k|0ab:900000:/img/a.png''
   \<and> validateSignedUrl demoHmac demoIssued ''0ab'' (''k|0ab:900000:/img/a.png''[3 := CHR ''1''])
        900000 5 None =
        (None, logAccess demoIssued ''0ab'' False (Some ''Invalid signature'') 5 None)"
  using validateSignedUrl_signature_mismatch [of demoIssued "''0ab''"
      "\<lparr> originalPath = ''/img/a.png'', td_expires = 900000 \<rparr>" 5 900000
      "''k|0ab:900000:/img/a.png''" demoHmac "''k|0ab:900000:/img/a.png''[3 := CHR ''1'']" None]
  by (simp add: demo_issued_fields demo_signature demo_enabled)

text \<open>
  Claim C9. Two validations of one stored grant, each inside its validity window and with
  the same token, signature and expiry, both return the grant's resource path, and neither
  changes the grant store: a successful validation only appends to the access log. The
  service has no single-use mode, so every grant is of the reusable kind.
\<close>

theorem validateSignedUrl_idempotent:
  assumes "ap_enabled (ap_config s)"
    and "tokenCache s tok = Some td"
    and "sig = generateSignature H (ap_config s) tok expiry (originalPath td)"
    and "now1 \<le> expiry" and "now1 \<le> td_expires td"
    and "now2 \<le> expiry" and "now2 \<le> td_expires td"
    and "r1 = validateSignedUrl H s tok sig expiry now1 nav"
    and "r2 = validateSignedUrl H (snd r1) tok sig expiry now2 nav"
  shows "fst r1 = Some (originalPath td) \<and> fst r2 = Some (originalPath td)
       \<and> tokenCache (snd r1) = tokenCache s \<and> tokenCache (snd r2) = tokenCache s"
proof -
  have r1: "r1 = (Some (originalPath td), logAccess s tok True None now1 nav)"
    using assms by (simp add: validateSignedUrl_def)
  then have "r2 = (Some (originalPath td),
                   logAccess (logAccess s tok True None now1 nav) tok True None now2 nav)"
    using assms by (simp add: validateSignedUrl_def logAccess_tokenCache logAccess_config)
  with r1 show ?thesis by (simp add: logAccess_tokenCache)
qed

theorem validateSignedUrl_idempotent_witness:
  "ap_enabled (ap_config demoIssued)
   \<and> tokenCache demoIssued ''0ab'' = Some \<lparr> originalPath = ''/img/a.png'', td_expires = 900000 \<rparr>
   \<and> (5::int) \<le> 900000 \<and> (70::int) \<le> 900000
   \<and> fst (validateSignedUrl demoHmac demoIssued ''0ab'' ''k|0ab:900000:/img/a.png'' 900000 5 None)
       = Some ''/img/a.png''
   \<and> fst (validateSignedUrl demoHmac
            (snd (validateSignedUrl demoHmac demoIssued ''0ab'' ''k|0ab:900000:/img/a.png''
                    900000 5 None))
            ''0ab'' ''k|0ab:900000:/img/a.png'' 900000 70 None)
       = Some ''/img/a.png''"
  using validateSignedUrl_idempotent [of demoIssued "''0ab''"
      "\<lparr> originalPath = ''/img/a.png'', td_expires = 900000 \<rparr>"
      "''k|0ab:900000:/img/a.png''" demoHmac 900000 5 70 _ None, OF _ _ _ _ _ _ _ refl refl]
  by (simp add: demo_issued_fields demo_signature demo_enabled)

text \<open>
  Claim C10. With \<open>enabled = false\<close>, \<open>generateSignedUrl\<close> returns the asset path itself as
  the URL with an empty token, expiry \<open>0\<close> and an empty signature for every path (the
  extension allow-list is not consulted, so no path is rejected), and
  \<open>validateSignedUrl\<close> returns no path for every token; neither call changes the service.
\<close>

theorem disabled_service_passthrough:
  assumes "\<not> ap_enabled (ap_config s)"
  shows "generateSignedUrl H s assetPath rnd now =
           Inr (\<lparr> url = assetPath, token = [], expires = 0, signature = [] \<rparr>, s)
       \<and> validateSignedUrl H s tok sig expiry now' nav = (None, s)"
  using assms by (simp add: generateSignedUrl_def validateSignedUrl_def)

theorem disabled_service_passthrough_witness:
  "\<not> ap_enabled (ap_config (demoService\<lparr> ap_config := demoConfig\<lparr> ap_enabled := False \<rparr> \<rparr>))
   \<and> generateSignedUrl demoHmac (demoService\<lparr> ap_config := demoConfig\<lparr> ap_enabled := False \<rparr> \<rparr>)
        ''/tool/run.exe'' ''ab'' 0 =
        Inr (\<lparr> url = ''/tool/run.exe'', token = [], expires = 0, signature = [] \<rparr>,
             demoService\<lparr> ap_config := demoConfig\<lparr> ap_enabled := False \<rparr> \<rparr>)
   \<and> validateSignedUrl demoHmac (demoService\<lparr> ap_config := demoConfig\<lparr> ap_enabled := False \<rparr> \<rparr>)
        ''0ab'' ''k|0ab:900000:/img/a.png'' 900000 5 None =
        (None, demoService\<lparr> ap_config := demoConfig\<lparr> ap_enabled := False \<rparr> \<rparr>)"
  using disabled_service_passthrough
      [of "demoService\<lparr> ap_config := demoConfig\<lparr> ap_enabled := False \<rparr> \<rparr>" demoHmac
          "''/tool/run.exe''" "''ab''" 0 "''0ab''" "''k|0ab:900000:/img/a.png''" 900000 5 None]
  by simp

subsection \<open>Rate limiter\<close>

lemma getClientId_stored:
  "sessionClientId ob = Some cid \<Longrightarrow> cid \<noteq> [] \<Longrightarrow> getClientId ob now rnd = (cid, ob)"
  by (cases cid) (simp_all add: getClientId_def)

lemma getClientId_session:
  "\<exists>cid. cid \<noteq> [] \<and> getClientId ob now rnd = (cid, ob\<lparr> sessionClientId := Some cid \<rparr>)"
  by (auto simp: getClientId_def Let_def split: option.splits list.splits)

lemma checkRateLimit_within:
  assumes "sessionClientId ob = Some cid" "cid \<noteq> []"
    and "rateLimitStore ob (cid @ '':'' @ u) = Some e"
    and "now - firstRequest e \<le> windowSize"
  shows "checkRateLimit ob u now rnd =
           (if count e + 1 > maxRequests
            then (Inl (RateLimitExceeded u),
                  ob\<lparr> rateLimitStore := (rateLimitStore ob)(cid @ '':'' @ u \<mapsto>
                        e\<lparr> count := count e + 1, lastRequest := now, blocked := True \<rparr>) \<rparr>)
            else (Inr (),
                  ob\<lparr> rateLimitStore := (rateLimitStore ob)(cid @ '':'' @ u \<mapsto>
                        e\<lparr> count := count e + 1, lastRequest := now \<rparr>) \<rparr>))"
  using assms by (simp add: checkRateLimit_def getClientId_stored Let_def)

lemma checkRateLimit_fresh:
  assumes "sessionClientId ob = Some cid" "cid \<noteq> []"
    and "case rateLimitStore ob (cid @ '':'' @ u) of None \<Rightarrow> True
         | Some e \<Rightarrow> now - firstRequest e > windowSize"
  shows "checkRateLimit ob u now rnd =
           (Inr (), ob\<lparr> rateLimitStore := (rateLimitStore ob)(cid @ '':'' @ u \<mapsto>
              \<lparr> count = 1, firstRequest = now, lastRequest = now, blocked = False \<rparr>) \<rparr>)"
proof (cases "rateLimitStore ob (cid @ '':'' @ u)")
  case None
  then show ?thesis
    using assms by (simp add: checkRateLimit_def getClientId_stored Let_def)
next
  case (Some e)
  then show ?thesis
    using assms by (simp add: checkRateLimit_def getClientId_stored Let_def)
qed

lemma checkRateLimitSeq_within:
  assumes "sessionClientId ob = Some cid" "cid \<noteq> []"
    and "rateLimitStore ob (cid @ '':'' @ u) = Some e"
    and "\<forall>c \<in> set calls. fst c - firstRequest e \<le> windowSize"
    and "count e + int (length calls) \<le> maxRequests"
  shows "fst (checkRateLimitSeq ob u calls) = replicate (length calls) (Inr ())
       \<and> sessionClientId (snd (checkRateLimitSeq ob u calls)) = Some cid
       \<and> (\<exists>e'. rateLimitStore (snd (checkRateLimitSeq ob u calls)) (cid @ '':'' @ u) = Some e'
              \<and> count e' = count e + int (length calls)
              \<and> firstRequest e' = firstRequest e \<and> blocked e' = blocked e)"
  using assms
proof (induction calls arbitrary: ob e)
  case Nil
  then show ?case by simp
next
  case (Cons c calls)
  obtain now rnd where c: "c = (now, rnd)" by (cases c)
  let ?e1 = "e\<lparr> count := count e + 1, lastRequest := now \<rparr>"
  let ?ob1 = "ob\<lparr> rateLimitStore := (rateLimitStore ob)(cid @ '':'' @ u \<mapsto> ?e1) \<rparr>"
  have step: "checkRateLimit ob u now rnd = (Inr (), ?ob1)"
    using checkRateLimit_within [of ob cid u e now rnd] Cons.prems c by simp
  have IH: "fst (checkRateLimitSeq ?ob1 u calls) = replicate (length calls) (Inr ())
       \<and> sessionClientId (snd (checkRateLimitSeq ?ob1 u calls)) = Some cid
       \<and> (\<exists>e'. rateLimitStore (snd (checkRateLimitSeq ?ob1 u calls)) (cid @ '':'' @ u) = Some e'
              \<and> count e' = count ?e1 + int (length calls)
              \<and> firstRequest e' = firstRequest ?e1 \<and> blocked e' = blocked ?e1)"
    by (rule Cons.IH) (use Cons.prems in auto)
  show ?case
    using IH by (auto simp: c step case_prod_beta)
qed

text \<open>
  Claim C5. For one key whose window starts with the first of the calls (the key has no
  entry, or its previous window has run out), with the ceiling of 100 requests per window
  of 60000 ms: the first 100 calls inside the window all pass; the 101st call inside the
  same window throws the rate-limit error and leaves the entry marked blocked; and the
  next call made after more than the window size has passed since the window start passes
  again, with the entry reset to count 1, unblocked, and the window restarted at that call.
\<close>

theorem checkRateLimit_window:
  assumes "length rest = 99"
    and "key = rateLimitKey ob u t1 r1"
    and "case rateLimitStore ob key of None \<Rightarrow> True
         | Some e \<Rightarrow> t1 - firstRequest e > windowSize"
    and "\<forall>c \<in> set rest. fst c - t1 \<le> windowSize"
    and "t101 - t1 \<le> windowSize"
    and "t102 - t1 > windowSize"
    and "ob100 = snd (checkRateLimitSeq ob u ((t1, r1) # rest))"
    and "ob101 = snd (checkRateLimit ob100 u t101 r101)"
    and "ob102 = snd (checkRateLimit ob101 u t102 r102)"
  shows "fst (checkRateLimitSeq ob u ((t1, r1) # rest)) = replicate 100 (Inr ())
       \<and> fst (checkRateLimit ob100 u t101 r101) = Inl (RateLimitExceeded u)
       \<and> map_option blocked (rateLimitStore ob101 key) = Some True
       \<and> fst (checkRateLimit ob101 u t102 r102) = Inr ()
       \<and> rateLimitStore ob102 key =
           Some \<lparr> count = 1, firstRequest = t102, lastRequest = t102, blocked = False \<rparr>"
proof -
  obtain cid where cid: "cid \<noteq> []"
      "getClientId ob t1 r1 = (cid, ob\<lparr> sessionClientId := Some cid \<rparr>)"
    using getClientId_session by blast
  let ?k = "cid @ '':'' @ u"
  have key: "key = ?k" using assms(2) cid by (simp add: rateLimitKey_def)
  let ?e1 = "\<lparr> count = 1, firstRequest = t1, lastRequest = t1, blocked = False \<rparr>"
  let ?ob1 = "ob\<lparr> sessionClientId := Some cid,
                  rateLimitStore := (rateLimitStore ob)(?k \<mapsto> ?e1) \<rparr>"
  have first: "checkRateLimit ob u t1 r1 = (Inr (), ?ob1)"
    using assms(3) cid key
    by (auto simp: checkRateLimit_def Let_def split: option.splits)
  have seq: "fst (checkRateLimitSeq ?ob1 u rest) = replicate (length rest) (Inr ())
       \<and> sessionClientId (snd (checkRateLimitSeq ?ob1 u rest)) = Some cid
       \<and> (\<exists>e'. rateLimitStore (snd (checkRateLimitSeq ?ob1 u rest)) ?k = Some e'
              \<and> count e' = count ?e1 + int (length rest)
              \<and> firstRequest e' = firstRequest ?e1 \<and> blocked e' = blocked ?e1)"
    by (rule checkRateLimitSeq_within) (use assms(1,4) cid in \<open>auto simp: maxRequests_def\<close>)
  have ob100: "ob100 = snd (checkRateLimitSeq ?ob1 u rest)"
    using assms(7) first by (simp add: case_prod_beta)
  from seq ob100 obtain e100 where e100:
    "sessionClientId ob100 = Some cid" "rateLimitStore ob100 ?k = Some e100"
    "count e100 = 100" "firstRequest e100 = t1"
    using assms(1) by auto
  have c1: "fst (checkRateLimitSeq ob u ((t1, r1) # rest)) = replicate 100 (Inr ())"
    using seq first assms(1) by (simp add: case_prod_beta eval_nat_numeral)
  let ?e101 = "e100\<lparr> count := count e100 + 1, lastRequest := t101, blocked := True \<rparr>"
  have s101: "checkRateLimit ob100 u t101 r101 =
      (Inl (RateLimitExceeded u), ob100\<lparr> rateLimitStore := (rateLimitStore ob100)(?k \<mapsto> ?e101) \<rparr>)"
    using checkRateLimit_within [of ob100 cid u e100 t101 r101] e100 cid(1) assms(5)
    by (simp add: maxRequests_def)
  then have ob101: "ob101 = ob100\<lparr> rateLimitStore := (rateLimitStore ob100)(?k \<mapsto> ?e101) \<rparr>"
    using assms(8) by simp
  have s102: "checkRateLimit ob101 u t102 r102 =
      (Inr (), ob101\<lparr> rateLimitStore := (rateLimitStore ob101)(?k \<mapsto>
              \<lparr> count = 1, firstRequest = t102, lastRequest = t102, blocked = False \<rparr>) \<rparr>)"
    by (rule checkRateLimit_fresh [of ob101 cid]) (use ob101 e100 cid(1) assms(6) in auto)
  show ?thesis
    using c1 s101 s102 ob101 assms(9) key by simp
qed


lemma demo_rateLimitKey:
  "rateLimitStore demoObfuscator (rateLimitKey demoObfuscator ''/api/data'' 0 ''r'') = None"
  by (simp add: demoObfuscator_def)

theorem checkRateLimit_window_witness:
  "length (replicate 99 (10 :: int, ''r'')) = 99
   \<and> rateLimitStore demoObfuscator (rateLimitKey demoObfuscator ''/api/data'' 0 ''r'') = None
   \<and> (10 :: int) - 0 \<le> windowSize \<and> (59999 :: int) - 0 \<le> windowSize
   \<and> (60001 :: int) - 0 > windowSize
   \<and> fst (checkRateLimitSeq demoObfuscator ''/api/data'' ((0, ''r'') # replicate 99 (10, ''r'')))
        = replicate 100 (Inr ())
   \<and> fst (checkRateLimit
             (snd (checkRateLimitSeq demoObfuscator ''/api/data''
                     ((0, ''r'') # replicate 99 (10, ''r''))))
             ''/api/data'' 59999 ''r'') = Inl (RateLimitExceeded ''/api/data'')
   \<and> fst (checkRateLimit
             (snd (checkRateLimit
                (snd (checkRateLimitSeq demoObfuscator ''/api/data''
                        ((0, ''r'') # replicate 99 (10, ''r''))))
                ''/api/data'' 59999 ''r''))
             ''/api/data'' 60001 ''r'') = Inr ()"
  using checkRateLimit_window [of "replicate 99 (10, ''r'')" _ demoObfuscator "''/api/data''" 0
      "''r''" 59999 60001 _ _ "''r''" _ "''r''", OF _ refl _ _ _ _ refl refl refl]
  by (simp add: demo_rateLimitKey windowSize_def del: checkRateLimitSeq.simps)

subsection \<open>Detection fusion\<close>

lemma foldl_best:
  "foldl (\<lambda>best current. if confidence current > confidence best then current else best) b xs
      \<in> set (b # xs)
   \<and> (\<forall>r \<in> set (b # xs). confidence r \<le> confidence
        (foldl (\<lambda>best current. if confidence current > confidence best then current else best) b xs))"
proof (induction xs arbitrary: b)
  case Nil
  then show ?case by simp
next
  case (Cons x xs)
  show ?case
    using Cons.IH [of "if confidence x > confidence b then x else b"]
    by (auto split: if_splits)
qed

lemma bestDetection_max:
  assumes "hs \<noteq> []"
  shows "bestDetection hs \<in> set hs"
    and "\<forall>r \<in> set hs. confidence r \<le> confidence (bestDetection hs)"
proof -
  obtain b xs where hs: "hs = b # xs" using assms by (cases hs) auto
  show "bestDetection hs \<in> set hs"
    using foldl_best [of b xs] by (simp add: bestDetection_def hs del: foldl_Cons)
  show "\<forall>r \<in> set hs. confidence r \<le> confidence (bestDetection hs)"
    using foldl_best [of b xs] by (simp add: bestDetection_def hs del: foldl_Cons)
qed

lemma handleDetection_calls:
  assumes "onDetection (dt_config d) = Some cb"
  shows "onDetectionCalls (snd (handleDetection d x)) =
           onDetectionCalls d @ [(dr_method x, confidence x)]"
  using assms
  by (simp add: handleDetection_def Let_def blockAccess_def showWarning_def)

lemma runDetection_calls:
  "onDetectionCalls (snd (runDetection d env ts)) =
     (let high = highConfidenceDetections (dt_config d) (probeResults (dt_config d) env ts)
      in if length high > 0 then onDetectionCalls (snd (handleDetection d (bestDetection high)))
         else onDetectionCalls d)"
  by (simp add: runDetection_def Let_def case_prod_beta split: sum.splits)

text \<open>
  Claim C6. On one detection tick with a registered \<open>onDetection\<close> handler, when two or
  more probe results are detected with confidence at or above the configured threshold,
  the handler is called exactly once in that tick, with the method and confidence of a
  qualifying result whose confidence is the maximum among the qualifying results.
\<close>

theorem runDetection_single_handler_call:
  assumes "onDetection (dt_config d) = Some cb"
    and "high = highConfidenceDetections (dt_config d) (probeResults (dt_config d) env ts)"
    and "2 \<le> length high"
  shows "onDetectionCalls (snd (runDetection d env ts)) =
           onDetectionCalls d @ [(dr_method (bestDetection high), confidence (bestDetection high))]
       \<and> bestDetection high \<in> set high
       \<and> (\<forall>r \<in> set high. confidence r \<le> confidence (bestDetection high))"
proof -
  have ne: "high \<noteq> []" using assms(3) by auto
  have "onDetectionCalls (snd (runDetection d env ts)) =
          onDetectionCalls (snd (handleDetection d (bestDetection high)))"
    using ne assms(2) by (simp add: runDetection_calls Let_def)
  then show ?thesis
    using handleDetection_calls [OF assms(1)] bestDetection_max [OF ne] by simp
qed

lemma demo_probeResults:
  "probeResults (dt_config demoDetector) demoProbeEnv 0 =
     [\<lparr> detected = True, dr_method = ''timing'', confidence = 9 / 10, dr_timestamp = 0 \<rparr>,
      \<lparr> detected = False, dr_method = ''resize'', confidence = 0, dr_timestamp = 0 \<rparr>,
      \<lparr> detected = False, dr_method = ''console'', confidence = 0, dr_timestamp = 0 \<rparr>,
      \<lparr> detected = True, dr_method = ''debugger'', confidence = 19 / 20, dr_timestamp = 0 \<rparr>]"
  by (simp add: probeResults_def demoDetector_def demoProbeEnv_def detectByMethod_def timingBasedDetection_def resizeBasedDetection_def
      consoleBasedDetection_def debuggerBasedDetection_def Let_def)

lemma demo_high:
  "highConfidenceDetections (dt_config demoDetector)
     (probeResults (dt_config demoDetector) demoProbeEnv 0) =
     [\<lparr> detected = True, dr_method = ''timing'', confidence = 9 / 10, dr_timestamp = 0 \<rparr>,
      \<lparr> detected = True, dr_method = ''debugger'', confidence = 19 / 20, dr_timestamp = 0 \<rparr>]"
  by (simp add: demo_probeResults highConfidenceDetections_def) (simp add: demoDetector_def)

lemma demo_best:
  "bestDetection
     [\<lparr> detected = True, dr_method = ''timing'', confidence = 9 / 10, dr_timestamp = 0 \<rparr>,
      \<lparr> detected = True, dr_method = ''debugger'', confidence = 19 / 20, dr_timestamp = 0 \<rparr>] =
     \<lparr> detected = True, dr_method = ''debugger'', confidence = 19 / 20, dr_timestamp = 0 \<rparr>"
  by (simp add: bestDetection_def)

lemma demo_handler:
  "onDetection (dt_config demoDetector) = Some (\<lambda>m c. True)" "onDetectionCalls demoDetector = []"
  by (simp_all add: demoDetector_def)

theorem runDetection_single_handler_call_witness:
  "onDetection (dt_config demoDetector) = Some (\<lambda>m c. True)
   \<and> length (highConfidenceDetections (dt_config demoDetector)
        (probeResults (dt_config demoDetector) demoProbeEnv 0)) = 2
   \<and> onDetectionCalls (snd (runDetection demoDetector demoProbeEnv 0)) = [(''debugger'', 19 / 20)]"
  using runDetection_single_handler_call [of demoDetector "\<lambda>m c. True" _ demoProbeEnv 0, OF _ refl]
  by (simp add: demo_high demo_best demo_handler)

subsection \<open>Integrity check\<close>

lemma verifyElements_append:
  "verifyElements digest iv (pre @ post) allValid now isProd =
     (case verifyElements digest iv pre allValid now isProd of
        (Inl e, iv') \<Rightarrow> (Inl e, iv')
      | (Inr v, iv') \<Rightarrow> verifyElements digest iv' post v now isProd)"
  by (induction pre arbitrary: iv allValid) (auto split: prod.splits sum.splits)

lemma verifyElement_hash_failure:
  "generateHash digest (iv_config iv) (el_content x) (el_id x) = None \<Longrightarrow>
   verifyElement digest iv x now isProd = (Inl HashFailure, iv)"
  by (simp add: verifyElement_def)

lemma performIntegrityCheck_returns:
  "\<exists>b. fst (performIntegrityCheck digest iv codeElements now isProd) = Inr b"
  by (auto simp: performIntegrityCheck_def Let_def split: sum.splits prod.splits)

text \<open>
  Claim C7, as the code has it. \<open>performIntegrityCheck\<close> never throws: whatever happens
  inside, it returns a boolean. A hash computation that fails for one element is caught by
  the \<open>catch\<close> clause around the whole loop: the check returns \<open>false\<close> with the state
  reached after the elements before the failing one, so no check record is written for
  the failing element and the elements after it are not examined.
\<close>

theorem performIntegrityCheck_hash_failure_aborts:
  "(\<exists>b. fst (performIntegrityCheck digest iv codeElements now isProd) = Inr b)
   \<and> (\<not> isVerifying iv
        \<and> codeElements = Inr (pre @ x # post)
        \<and> verifyElements digest (iv\<lparr> isVerifying := True \<rparr>) pre True now isProd = (Inr v, iv')
        \<and> generateHash digest (iv_config iv') (el_content x) (el_id x) = None
      \<longrightarrow> performIntegrityCheck digest iv codeElements now isProd =
            (Inr False, iv'\<lparr> isVerifying := False \<rparr>))"
proof (intro conjI impI)
  show "\<exists>b. fst (performIntegrityCheck digest iv codeElements now isProd) = Inr b"
    by (rule performIntegrityCheck_returns)
next
  assume a: "\<not> isVerifying iv
        \<and> codeElements = Inr (pre @ x # post)
        \<and> verifyElements digest (iv\<lparr> isVerifying := True \<rparr>) pre True now isProd = (Inr v, iv')
        \<and> generateHash digest (iv_config iv') (el_content x) (el_id x) = None"
  then have "verifyElements digest (iv\<lparr> isVerifying := True \<rparr>) (pre @ x # post) True now isProd
              = (Inl HashFailure, iv')"
    by (simp add: verifyElements_append verifyElement_hash_failure)
  with a show "performIntegrityCheck digest iv codeElements now isProd =
            (Inr False, iv'\<lparr> isVerifying := False \<rparr>)"
    by (simp add: performIntegrityCheck_def Let_def)
qed

lemma demo_hash_a:
  "generateHash demoDigest (iv_config demoVerifier) (el_content demoElementA) (el_id demoElementA) = None"
  by (simp add: generateHash_def demoDigest_def demoVerifier_def demoElementA_def)

lemma demo_hash_b:
  "generateHash demoDigest (iv_config demoVerifier) (el_content demoElementB) (el_id demoElementB)
     = Some ''newsb''"
  by (simp add: generateHash_def demoDigest_def demoVerifier_def demoElementB_def)

lemma demo_verifier_fields:
  "\<not> isVerifying demoVerifier" "checks demoVerifier = Map.empty"
  "iv_config (demoVerifier\<lparr> isVerifying := True \<rparr>) = iv_config demoVerifier"
  "tamperHandlerCalls demoVerifier = []"
  by (simp_all add: demoVerifier_def)

theorem performIntegrityCheck_hash_failure_aborts_witness:
  "\<not> isVerifying demoVerifier
   \<and> verifyElements demoDigest (demoVerifier\<lparr> isVerifying := True \<rparr>) [] True 0 False
        = (Inr True, demoVerifier\<lparr> isVerifying := True \<rparr>)
   \<and> generateHash demoDigest (iv_config demoVerifier) (el_content demoElementA) (el_id demoElementA)
        = None
   \<and> performIntegrityCheck demoDigest demoVerifier (Inr ([] @ demoElementA # [demoElementB])) 0 False
        = (Inr False, demoVerifier)"
  using performIntegrityCheck_hash_failure_aborts [of demoDigest demoVerifier
      "Inr ([] @ demoElementA # [demoElementB])" 0 False "[]" demoElementA "[demoElementB]" True
      "demoVerifier\<lparr> isVerifying := True \<rparr>"]
  by (simp add: demo_hash_a demo_verifier_fields)

text \<open>
  Claim C7 as stated fails where it says the failing element is recorded and the others are
  still checked. With the hash of element \<open>a\<close> failing and element \<open>b\<close> after it (whose
  content does not match its baseline), the check returns \<open>false\<close> with no record for
  \<open>a\<close> and none for \<open>b\<close>; checked alone, \<open>b\<close> is recorded as not verified.
\<close>

theorem performIntegrityCheck_hash_failure_counterexample:
  "fst (performIntegrityCheck demoDigest demoVerifier (Inr [demoElementA, demoElementB]) 0 False)
     = Inr False
   \<and> checks (snd (performIntegrityCheck demoDigest demoVerifier
                    (Inr [demoElementA, demoElementB]) 0 False)) ''a'' = None
   \<and> checks (snd (performIntegrityCheck demoDigest demoVerifier
                    (Inr [demoElementA, demoElementB]) 0 False)) ''b'' = None
   \<and> map_option verified (checks (snd (performIntegrityCheck demoDigest demoVerifier
                    (Inr [demoElementB]) 0 False)) ''b'') = Some False"
  by (simp add: performIntegrityCheck_def Let_def verifyElement_def generateHash_def
      demoDigest_def handleIntegrityFailure_def handleCriticalTamperDetection_def
      demoVerifier_def demoElementA_def demoElementB_def)

subsection \<open>Threat level\<close>

text \<open>
  Claim C8. The threat level that \<open>updateMetrics\<close> computes is critical when some alert is
  critical; otherwise high when more than two alerts are of high severity; otherwise
  medium when there are more than ten alerts; otherwise low.
\<close>

theorem updateMetrics_threatLevel:
  "map_option threatLevel (metrics (updateMetrics sm now stats)) =
     Some (if \<exists>a \<in> set (alerts sm). sa_severity a = Critical then Critical
           else if length (filter (\<lambda>a. sa_severity a = High) (alerts sm)) > 2 then High
           else if length (alerts sm) > 10 then Medium
           else Low)"
  by (auto simp: updateMetrics_def Let_def filter_empty_conv)

subsection \<open>Event pipeline\<close>

lemma storeLocally_frame:
  "lg_config (storeLocally lg b) = lg_config lg"
  "consoleWrapped (storeLocally lg b) = consoleWrapped lg"
  "retryQueue (storeLocally lg b) = retryQueue lg"
  "pendingRetryTimers (storeLocally lg b) = pendingRetryTimers lg"
  "delivered (storeLocally lg b) = delivered lg"
  "eventQueue (storeLocally lg b) = eventQueue lg"
  "flushedBatches (storeLocally lg b) = flushedBatches lg"
  "inFlight (storeLocally lg b) = inFlight lg"
  "isOnline (storeLocally lg b) = isOnline lg"
  by (simp_all add: storeLocally_def Let_def)

lemma sendBatch_frame:
  "lg_config (sendBatch lg b) = lg_config lg"
  "consoleWrapped (sendBatch lg b) = consoleWrapped lg"
  "retryQueue (sendBatch lg b) = retryQueue lg"
  "pendingRetryTimers (sendBatch lg b) = pendingRetryTimers lg"
  "delivered (sendBatch lg b) = delivered lg"
  "eventQueue (sendBatch lg b) = eventQueue lg"
  "flushedBatches (sendBatch lg b) = flushedBatches lg"
  "inFlight (sendBatch lg b) = inFlight lg"
  "isOnline (sendBatch lg b) = isOnline lg"
  by (simp_all add: sendBatch_def storeLocally_frame split: option.splits list.splits)

lemma sendBatch_endpoint:
  "endpoint (lg_config lg) = Some (c # cs) \<Longrightarrow> sendBatch lg b = lg"
  by (simp add: sendBatch_def)

lemma flush_frame:
  "lg_config (flush lg env) = lg_config lg"
  "consoleWrapped (flush lg env) = consoleWrapped lg"
  "retryQueue (flush lg env) = retryQueue lg"
  "pendingRetryTimers (flush lg env) = pendingRetryTimers lg"
  "delivered (flush lg env) = delivered lg"
  "isOnline (flush lg env) = isOnline lg"
  by (simp_all add: flush_def Let_def sendBatch_frame)

lemma flush_storage:
  "endpoint (lg_config lg) = Some (c # cs) \<Longrightarrow> localStorage (flush lg env) = localStorage lg"
  by (simp add: flush_def Let_def sendBatch_def)

lemma logEvent_Suc:
  "logEvent (Suc k) lg c =
     (if \<not> lg_enabled (lg_config lg) then (Inr [], lg)
      else case consoleCall k (afterEnqueue lg c) ''log''
                  [JStr (loggedMessage c), JObj (lc_details c)] (nestedEnv (lc_env c)) of
             (Inl e, lg4) \<Rightarrow> (Inl e, lg4)
           | (Inr _, lg4) \<Rightarrow> (Inr (ev_id (makeEvent lg c)), lg4))"
  by (simp add: logEvent.simps afterEnqueue_def Let_def)

lemma afterEnqueue_frame:
  "lg_config (afterEnqueue lg c) = lg_config lg"
  "consoleWrapped (afterEnqueue lg c) = consoleWrapped lg"
  "retryQueue (afterEnqueue lg c) = retryQueue lg"
  "pendingRetryTimers (afterEnqueue lg c) = pendingRetryTimers lg"
  "delivered (afterEnqueue lg c) = delivered lg"
  "isOnline (afterEnqueue lg c) = isOnline lg"
  by (simp_all add: afterEnqueue_def Let_def flush_frame)

lemma afterEnqueue_storage:
  "endpoint (lg_config lg) = Some (e # es) \<Longrightarrow>
   localStorage (afterEnqueue lg c) = localStorage lg"
  by (simp add: afterEnqueue_def Let_def flush_storage flush_frame)

lemma logEvent_overflows:
  "lg_enabled (lg_config lg) \<Longrightarrow> consoleWrapped lg \<Longrightarrow> fst (logEvent k lg c) = Inl StackOverflow"
  "lg_enabled (lg_config lg) \<Longrightarrow> consoleWrapped lg \<Longrightarrow>
     fst (consoleCall k lg m args env) = Inl StackOverflow"
proof (induction k lg c and k lg m args env rule: logEvent_consoleCall.induct)
  case (1 lg c)
  then show ?case by (simp add: logEvent.simps)
next
  case (2 k lg c)
  let ?cc = "consoleCall k (afterEnqueue lg c) ''log''
               [JStr (loggedMessage c), JObj (lc_details c)] (nestedEnv (lc_env c))"
  have "fst ?cc = Inl StackOverflow"
    using "2.IH" [OF _ refl refl refl refl] "2.prems"
    by (simp add: afterEnqueue_def Let_def flush_frame)
  then obtain lg4 where "?cc = (Inl StackOverflow, lg4)"
    by (cases ?cc) auto
  then show ?case
    using "2.prems" by (simp add: logEvent_Suc)
next
  case (3 k lg m args env)
  then obtain lg' where "logEvent k lg (consoleAccess m args env) = (Inl StackOverflow, lg')"
    by (cases "logEvent k lg (consoleAccess m args env)") auto
  then show ?case
    using "3.prems" by (simp add: consoleCall.simps)
qed

lemma logEvent_frame:
  "lg_config (snd (logEvent k lg c)) = lg_config lg
   \<and> consoleWrapped (snd (logEvent k lg c)) = consoleWrapped lg
   \<and> retryQueue (snd (logEvent k lg c)) = retryQueue lg
   \<and> pendingRetryTimers (snd (logEvent k lg c)) = pendingRetryTimers lg
   \<and> delivered (snd (logEvent k lg c)) = delivered lg
   \<and> isOnline (snd (logEvent k lg c)) = isOnline lg"
  "lg_config (snd (consoleCall k lg m args env)) = lg_config lg
   \<and> consoleWrapped (snd (consoleCall k lg m args env)) = consoleWrapped lg
   \<and> retryQueue (snd (consoleCall k lg m args env)) = retryQueue lg
   \<and> pendingRetryTimers (snd (consoleCall k lg m args env)) = pendingRetryTimers lg
   \<and> delivered (snd (consoleCall k lg m args env)) = delivered lg
   \<and> isOnline (snd (consoleCall k lg m args env)) = isOnline lg"
proof (induction k lg c and k lg m args env rule: logEvent_consoleCall.induct)
  case (1 lg c)
  then show ?case by (simp add: logEvent.simps)
next
  case (2 k lg c)
  show ?case
  proof (cases "lg_enabled (lg_config lg)")
    case False
    then show ?thesis by (simp add: logEvent_Suc)
  next
    case True
    let ?cc = "consoleCall k (afterEnqueue lg c) ''log''
                 [JStr (loggedMessage c), JObj (lc_details c)] (nestedEnv (lc_env c))"
    have ih: "lg_config (snd ?cc) = lg_config (afterEnqueue lg c)
       \<and> consoleWrapped (snd ?cc) = consoleWrapped (afterEnqueue lg c)
       \<and> retryQueue (snd ?cc) = retryQueue (afterEnqueue lg c)
       \<and> pendingRetryTimers (snd ?cc) = pendingRetryTimers (afterEnqueue lg c)
       \<and> delivered (snd ?cc) = delivered (afterEnqueue lg c)
       \<and> isOnline (snd ?cc) = isOnline (afterEnqueue lg c)"
      using "2.IH" [OF _ refl refl refl refl] True by (simp add: afterEnqueue_def Let_def)
    have "snd (logEvent (Suc k) lg c) = snd ?cc"
      using True by (simp add: logEvent_Suc split: prod.splits sum.splits)
    then show ?thesis
      using ih by (simp add: afterEnqueue_frame)
  qed
next
  case (3 k lg m args env)
  show ?case
  proof (cases "consoleWrapped lg")
    case False
    then show ?thesis by (simp add: consoleCall.simps)
  next
    case True
    then have "snd (consoleCall k lg m args env) = snd (logEvent k lg (consoleAccess m args env))"
      by (simp add: consoleCall.simps split: prod.splits sum.splits)
    then show ?thesis
      using "3.IH" [OF True] by simp
  qed
qed

lemma logEvent_storage:
  "endpoint (lg_config lg) = Some (e # es) \<Longrightarrow>
     localStorage (snd (logEvent k lg c)) = localStorage lg"
  "endpoint (lg_config lg) = Some (e # es) \<Longrightarrow>
     localStorage (snd (consoleCall k lg m args env)) = localStorage lg"
proof (induction k lg c and k lg m args env rule: logEvent_consoleCall.induct)
  case (1 lg c)
  then show ?case by (simp add: logEvent.simps)
next
  case (2 k lg c)
  show ?case
  proof (cases "lg_enabled (lg_config lg)")
    case False
    then show ?thesis by (simp add: logEvent_Suc)
  next
    case True
    let ?cc = "consoleCall k (afterEnqueue lg c) ''log''
                 [JStr (loggedMessage c), JObj (lc_details c)] (nestedEnv (lc_env c))"
    have "localStorage (snd ?cc) = localStorage (afterEnqueue lg c)"
      using "2.IH" [OF _ refl refl refl refl] True "2.prems"
      by (simp add: afterEnqueue_def Let_def flush_frame)
    moreover have "snd (logEvent (Suc k) lg c) = snd ?cc"
      using True by (simp add: logEvent_Suc split: prod.splits sum.splits)
    ultimately show ?thesis
      using "2.prems" by (simp add: afterEnqueue_storage)
  qed
next
  case (3 k lg m args env)
  show ?case
  proof (cases "consoleWrapped lg")
    case False
    then show ?thesis by (simp add: consoleCall.simps)
  next
    case True
    then have "snd (consoleCall k lg m args env) = snd (logEvent k lg (consoleAccess m args env))"
      by (simp add: consoleCall.simps split: prod.splits sum.splits)
    then show ?thesis
      using "3.IH" [OF True "3.prems"] by simp
  qed
qed

lemma flush_grows:
  "\<exists>ys. flushedBatches (flush lg env) = flushedBatches lg @ ys
        \<and> inFlight (flush lg env) = inFlight lg @ ys"
  by (simp add: flush_def Let_def sendBatch_frame)

lemma afterEnqueue_grows:
  "\<exists>ys. flushedBatches (afterEnqueue lg c) = flushedBatches lg @ ys
        \<and> inFlight (afterEnqueue lg c) = inFlight lg @ ys"
proof -
  let ?lg1 = "lg\<lparr> eventQueue := eventQueue lg @ [makeEvent lg c] \<rparr>"
  let ?lg2 = "if lc_severity c = Critical then flush ?lg1 (lc_env c) else ?lg1"
  obtain ys where ys: "flushedBatches ?lg2 = flushedBatches lg @ ys"
      "inFlight ?lg2 = inFlight lg @ ys"
    using flush_grows [of ?lg1 "lc_env c"] by (cases "lc_severity c = Critical") auto
  obtain zs where zs: "flushedBatches (flush ?lg2 (lc_env c)) = flushedBatches ?lg2 @ zs"
      "inFlight (flush ?lg2 (lc_env c)) = inFlight ?lg2 @ zs"
    using flush_grows [of ?lg2 "lc_env c"] by auto
  show ?thesis
  proof (cases "int (length (eventQueue ?lg2)) \<ge> batchSize (lg_config ?lg2)")
    case True
    then have "afterEnqueue lg c = flush ?lg2 (lc_env c)"
      by (simp add: afterEnqueue_def Let_def)
    then show ?thesis using ys zs by simp
  next
    case False
    then have "afterEnqueue lg c = ?lg2"
      by (simp add: afterEnqueue_def Let_def)
    then show ?thesis using ys by simp
  qed
qed

lemma logEvent_grows:
  "\<exists>ys. flushedBatches (snd (logEvent k lg c)) = flushedBatches lg @ ys
        \<and> inFlight (snd (logEvent k lg c)) = inFlight lg @ ys"
  "\<exists>ys. flushedBatches (snd (consoleCall k lg m args env)) = flushedBatches lg @ ys
        \<and> inFlight (snd (consoleCall k lg m args env)) = inFlight lg @ ys"
proof (induction k lg c and k lg m args env rule: logEvent_consoleCall.induct)
  case (1 lg c)
  then show ?case by (simp add: logEvent.simps)
next
  case (2 k lg c)
  show ?case
  proof (cases "lg_enabled (lg_config lg)")
    case False
    then show ?thesis by (simp add: logEvent_Suc)
  next
    case True
    let ?cc = "consoleCall k (afterEnqueue lg c) ''log''
                 [JStr (loggedMessage c), JObj (lc_details c)] (nestedEnv (lc_env c))"
    obtain ys where ys: "flushedBatches (snd ?cc) = flushedBatches (afterEnqueue lg c) @ ys"
        "inFlight (snd ?cc) = inFlight (afterEnqueue lg c) @ ys"
      using "2.IH" [OF _ refl refl refl refl] True by (auto simp: afterEnqueue_def Let_def)
    obtain zs where zs: "flushedBatches (afterEnqueue lg c) = flushedBatches lg @ zs"
        "inFlight (afterEnqueue lg c) = inFlight lg @ zs"
      using afterEnqueue_grows by blast
    have "snd (logEvent (Suc k) lg c) = snd ?cc"
      using True by (simp add: logEvent_Suc split: prod.splits sum.splits)
    then show ?thesis
      using ys zs by simp
  qed
next
  case (3 k lg m args env)
  show ?case
  proof (cases "consoleWrapped lg")
    case False
    then show ?thesis by (simp add: consoleCall.simps)
  next
    case True
    then have "snd (consoleCall k lg m args env) = snd (logEvent k lg (consoleAccess m args env))"
      by (simp add: consoleCall.simps split: prod.splits sum.splits)
    then show ?thesis
      using "3.IH" [OF True] by simp
  qed
qed

lemma consoleCall_overflow_state:
  assumes "lg_enabled (lg_config lg)" and "consoleWrapped lg"
  shows "\<exists>lg'. consoleCall k lg m args env = (Inl StackOverflow, lg')"
  using logEvent_overflows(2) [OF assms, of k m args env]
  by (cases "consoleCall k lg m args env") simp

lemma flushSettled_never_requeues:
  assumes "lg_enabled (lg_config lg)" and "consoleWrapped lg"
  shows "fst (flushSettled fuel lg batch fetchOk env) = Inl StackOverflow
       \<and> retryQueue (snd (flushSettled fuel lg batch fetchOk env)) = retryQueue lg
       \<and> pendingRetryTimers (snd (flushSettled fuel lg batch fetchOk env)) = pendingRetryTimers lg"
proof -
  let ?lg = "lg\<lparr> inFlight := remove1 batch (inFlight lg) \<rparr>"
  let ?attempt = "if sendBatchFulfils ?lg fetchOk then
               consoleCall fuel (noteDelivered ?lg batch) ''log''
                 [JStr ([CHR 0xF0, CHR 0x9F, CHR 0x93, CHR 0x8A] @ '' Security events flushed: ''
                         @ numToString 10 (int (length (events batch))) @ '' events'')]
                 env
             else (Inl TransmissionFailure, ?lg)"
  have nd: "lg_enabled (lg_config (noteDelivered ?lg batch))"
      "consoleWrapped (noteDelivered ?lg batch)"
      "retryQueue (noteDelivered ?lg batch) = retryQueue lg"
      "pendingRetryTimers (noteDelivered ?lg batch) = pendingRetryTimers lg"
    using assms by (simp_all add: noteDelivered_def split: option.splits list.splits)
  obtain e lg1 where t: "?attempt = (Inl e, lg1)" and lg1: "lg_enabled (lg_config lg1)"
      "consoleWrapped lg1" "retryQueue lg1 = retryQueue lg"
      "pendingRetryTimers lg1 = pendingRetryTimers lg"
  proof (cases "sendBatchFulfils ?lg fetchOk")
    case True
    obtain lg' where c1: "consoleCall fuel (noteDelivered ?lg batch) ''log''
                 [JStr ([CHR 0xF0, CHR 0x9F, CHR 0x93, CHR 0x8A] @ '' Security events flushed: ''
                         @ numToString 10 (int (length (events batch))) @ '' events'')]
                 env = (Inl StackOverflow, lg')"
      using consoleCall_overflow_state [OF nd(1,2)] by blast
    have "lg_config lg' = lg_config (noteDelivered ?lg batch)"
        "consoleWrapped lg' = consoleWrapped (noteDelivered ?lg batch)"
        "retryQueue lg' = retryQueue (noteDelivered ?lg batch)"
        "pendingRetryTimers lg' = pendingRetryTimers (noteDelivered ?lg batch)"
      using logEvent_frame(2) [of fuel "noteDelivered ?lg batch" "''log''"
          "[JStr ([CHR 0xF0, CHR 0x9F, CHR 0x93, CHR 0x8A] @ '' Security events flushed: ''
                         @ numToString 10 (int (length (events batch))) @ '' events'')]" env] c1
      by simp_all
    then show ?thesis
      using that [of StackOverflow lg'] True c1 nd by simp
  next
    case False
    then show ?thesis using that assms by simp
  qed
  obtain lg2 where cc: "consoleCall fuel lg1 ''error''
               [JStr ''Failed to flush security events:'', JError e] (nestedEnv env)
               = (Inl StackOverflow, lg2)"
    using consoleCall_overflow_state [OF lg1(1,2)] by blast
  have "flushSettled fuel lg batch fetchOk env = (Inl StackOverflow, lg2)"
    unfolding flushSettled_def Let_def t by (simp add: cc)
  moreover have "retryQueue lg2 = retryQueue lg1" "pendingRetryTimers lg2 = pendingRetryTimers lg1"
    using logEvent_frame(2) [of fuel lg1 "''error''"
        "[JStr ''Failed to flush security events:'', JError e]" "nestedEnv env"] cc
    by simp_all
  ultimately show ?thesis
    using lg1 by simp
qed

lemma logEvent_snd:
  "lg_enabled (lg_config lg) \<Longrightarrow>
     snd (logEvent (Suc k) lg c) =
       snd (consoleCall k (afterEnqueue lg c) ''log''
              [JStr (loggedMessage c), JObj (lc_details c)] (nestedEnv (lc_env c)))"
  by (simp add: logEvent_Suc split: prod.splits sum.splits)

lemma consoleCall_snd:
  "consoleWrapped lg \<Longrightarrow>
     snd (consoleCall k lg m args env) = snd (logEvent k lg (consoleAccess m args env))"
  by (simp add: consoleCall.simps split: prod.splits sum.splits)

lemma flush_eventsHeld: "eventsHeld (flush lg env) = eventsHeld lg"
  by (simp add: flush_def Let_def eventsHeld_def sendBatch_frame makeBatch_def)

lemma afterEnqueue_eventsHeld: "eventsHeld (afterEnqueue lg c) = Suc (eventsHeld lg)"
proof -
  have "eventsHeld (lg\<lparr> eventQueue := eventQueue lg @ [makeEvent lg c] \<rparr>) = Suc (eventsHeld lg)"
    by (simp add: eventsHeld_def)
  then show ?thesis
    by (simp add: afterEnqueue_def Let_def flush_eventsHeld)
qed

lemma logEvent_eventsHeld:
  "lg_enabled (lg_config lg) \<Longrightarrow> consoleWrapped lg \<Longrightarrow>
     eventsHeld (snd (logEvent k lg c)) = eventsHeld lg + k"
  "lg_enabled (lg_config lg) \<Longrightarrow> consoleWrapped lg \<Longrightarrow>
     eventsHeld (snd (consoleCall k lg m args env)) = eventsHeld lg + k"
proof (induction k lg c and k lg m args env rule: logEvent_consoleCall.induct)
  case (1 lg c)
  then show ?case by (simp add: logEvent.simps)
next
  case (2 k lg c)
  have "eventsHeld (snd (consoleCall k (afterEnqueue lg c) ''log''
              [JStr (loggedMessage c), JObj (lc_details c)] (nestedEnv (lc_env c))))
          = eventsHeld (afterEnqueue lg c) + k"
    using "2.IH" [OF _ refl refl refl refl] "2.prems"
    by (simp add: afterEnqueue_def Let_def flush_frame)
  then show ?case
    using "2.prems" by (simp add: logEvent_snd afterEnqueue_eventsHeld)
next
  case (3 k lg m args env)
  then show ?case by (simp add: consoleCall_snd)
qed

lemmas demo_logger_defs =
  demoLogger_def newLogger_def loadPendingEvents_def demoLoggerConfig_def demoCall_def
  demoEnv_def

lemma demo_config_fields:
  "lg_enabled demoLoggerConfig"
  "endpoint demoLoggerConfig = Some (CHR ''h'' # ''ttps://log.example/events'')"
  "batchSize demoLoggerConfig = 2" "maxRetries demoLoggerConfig = 3"
  "localStorageKey demoLoggerConfig = ''sandro_security_events''"
  by (simp_all add: demoLoggerConfig_def)

lemma demo_logger_fields:
  "lg_config demoLogger = demoLoggerConfig"
  "consoleWrapped demoLogger" "flushTimerArmed demoLogger" "isOnline demoLogger"
  "eventQueue demoLogger = []" "retryQueue demoLogger = []" "pendingRetryTimers demoLogger = 0"
  "delivered demoLogger = []" "localStorage demoLogger = Map.empty"
  "flushedBatches demoLogger = []" "inFlight demoLogger = []"
  "eventsHeld demoLogger = 0"
  by (simp_all add: demo_logger_defs eventsHeld_def)

lemma demo_second_enqueue:
  "flushedBatches (afterEnqueue (afterEnqueue demoLogger (demoCall ''a''))
      (consoleAccess ''log'' [JStr (loggedMessage (demoCall ''a'')), JObj []]
         (nestedEnv demoEnv))) = [demoFirstBatch]"
  "inFlight (afterEnqueue (afterEnqueue demoLogger (demoCall ''a''))
      (consoleAccess ''log'' [JStr (loggedMessage (demoCall ''a'')), JObj []]
         (nestedEnv demoEnv))) = [demoFirstBatch]"
  by (simp_all add: afterEnqueue_def Let_def flush_def sendBatch_def makeBatch_def makeEvent_def
      consoleAccess_def nestedEnv_def demoFirstBatch_def demo_logger_defs numToString_def
      natToString.simps digitChars_def)

lemma demo_first_call:
  "\<exists>ys. flushedBatches (demoAfterFirstCall n) = demoFirstBatch # ys
        \<and> inFlight (demoAfterFirstCall n) = demoFirstBatch # ys"
proof -
  let ?a = "demoCall ''a''"
  let ?ca = "consoleAccess ''log'' [JStr (loggedMessage ?a), JObj []] (nestedEnv demoEnv)"
  let ?lgA = "afterEnqueue demoLogger ?a"
  let ?lgB = "afterEnqueue ?lgA ?ca"
  have a: "lc_details ?a = []" "lc_env ?a = demoEnv" by (simp_all add: demoCall_def)
  have enA: "lg_enabled (lg_config ?lgA)" "consoleWrapped ?lgA"
    by (simp_all add: afterEnqueue_frame demo_logger_fields demo_config_fields)
  have "demoAfterFirstCall n =
          snd (consoleCall (Suc n) ?lgA ''log'' [JStr (loggedMessage ?a), JObj []] (nestedEnv demoEnv))"
    by (simp add: demoAfterFirstCall_def logEvent_snd demo_logger_fields demo_config_fields a)
  also have "\<dots> = snd (logEvent (Suc n) ?lgA ?ca)"
    by (simp add: consoleCall_snd enA)
  also have "\<dots> = snd (consoleCall n ?lgB ''log''
              [JStr (loggedMessage ?ca), JObj (lc_details ?ca)] (nestedEnv (lc_env ?ca)))"
    by (simp add: logEvent_snd enA)
  finally show ?thesis
    using logEvent_grows(2) [of n ?lgB "''log''"
        "[JStr (loggedMessage ?ca), JObj (lc_details ?ca)]" "nestedEnv (lc_env ?ca)"]
    by (simp add: demo_second_enqueue)
qed

lemma demo_first_call_frame:
  "lg_config (demoAfterFirstCall n) = demoLoggerConfig" "consoleWrapped (demoAfterFirstCall n)"
  "retryQueue (demoAfterFirstCall n) = []" "pendingRetryTimers (demoAfterFirstCall n) = 0"
  "delivered (demoAfterFirstCall n) = []" "localStorage (demoAfterFirstCall n) = Map.empty"
  using logEvent_frame(1) [of "Suc (Suc n)" demoLogger "demoCall ''a''"]
    logEvent_storage(1) [of demoLogger "CHR ''h''" "''ttps://log.example/events''"
      "Suc (Suc n)" "demoCall ''a''"]
  by (simp_all add: demoAfterFirstCall_def demo_logger_fields demo_config_fields)

text \<open>
  Claim C4 does not hold of the code. On the logger as its constructor leaves it (enabled,
  online, batch size two), the call \<open>logEvent('a', {}, 'low', 'test')\<close> re-enters
  \<open>logEvent\<close> through the wrapped \<open>console.log\<close>: whatever room the stack has, the call
  ends in a stack overflow instead of returning the event id; the first batch it produces
  holds the event \<open>a\<close> and a \<open>console_access\<close> event; by the time it throws it has created
  as many events as the stack had room for frames; and a second call, for the event \<open>b\<close>,
  overflows in the same way.
\<close>

theorem logEvent_console_reentry:
  "fst (logEvent (Suc (Suc n)) demoLogger (demoCall ''a'')) = Inl StackOverflow
   \<and> take 1 (flushedBatches (snd (logEvent (Suc (Suc n)) demoLogger (demoCall ''a''))))
       = [demoFirstBatch]
   \<and> map ev_type (events demoFirstBatch) = [''a'', ''console_access'']
   \<and> eventsHeld (snd (logEvent (Suc (Suc n)) demoLogger (demoCall ''a''))) = n + 2
   \<and> fst (logEvent k (snd (logEvent (Suc (Suc n)) demoLogger (demoCall ''a'')))
            (demoCall ''b'')) = Inl StackOverflow"
proof -
  have 1: "fst (logEvent (Suc (Suc n)) demoLogger (demoCall ''a'')) = Inl StackOverflow"
    by (rule logEvent_overflows(1)) (simp_all add: demo_logger_fields demo_config_fields)
  have 2: "take 1 (flushedBatches (snd (logEvent (Suc (Suc n)) demoLogger (demoCall ''a''))))
             = [demoFirstBatch]"
    using demo_first_call [of n] by (auto simp: demoAfterFirstCall_def)
  have 3: "map ev_type (events demoFirstBatch) = [''a'', ''console_access'']"
    by (simp add: demoFirstBatch_def makeEvent_def demoCall_def consoleAccess_def)
  have 4: "eventsHeld (snd (logEvent (Suc (Suc n)) demoLogger (demoCall ''a''))) = n + 2"
    using logEvent_eventsHeld(1) [of demoLogger "Suc (Suc n)" "demoCall ''a''"]
    by (simp add: demo_logger_fields demo_config_fields)
  have 5: "fst (logEvent k (snd (logEvent (Suc (Suc n)) demoLogger (demoCall ''a'')))
            (demoCall ''b'')) = Inl StackOverflow"
    by (rule logEvent_overflows(1))
      (use demo_first_call_frame(1,2) [of n] in
        \<open>simp_all add: demoAfterFirstCall_def demo_config_fields\<close>)
  from 1 2 3 4 5 show ?thesis by blast
qed

lemma flushSettled_failed_frame:
  assumes "lg_enabled (lg_config lg)" and "consoleWrapped lg"
    and "endpoint (lg_config lg) = Some (e # es)"
  shows "delivered (snd (flushSettled fuel lg batch False env)) = delivered lg
       \<and> localStorage (snd (flushSettled fuel lg batch False env)) = localStorage lg"
proof -
  let ?lg = "lg\<lparr> inFlight := remove1 batch (inFlight lg) \<rparr>"
  have nf: "\<not> sendBatchFulfils ?lg False"
    using assms(3) by (simp add: sendBatchFulfils_def)
  have en: "lg_enabled (lg_config ?lg)" "consoleWrapped ?lg"
    using assms(1,2) by simp_all
  obtain lg2 where cc: "consoleCall fuel ?lg ''error''
               [JStr ''Failed to flush security events:'', JError TransmissionFailure]
               (nestedEnv env) = (Inl StackOverflow, lg2)"
    using consoleCall_overflow_state [OF en] by blast
  have fs: "flushSettled fuel lg batch False env = (Inl StackOverflow, lg2)"
    unfolding flushSettled_def Let_def using nf by (simp add: cc)
  have "delivered lg2 = delivered ?lg"
    using logEvent_frame(2) [of fuel ?lg "''error''"
        "[JStr ''Failed to flush security events:'', JError TransmissionFailure]"
        "nestedEnv env"] cc by simp
  moreover have "localStorage lg2 = localStorage ?lg"
    using logEvent_storage(2) [of ?lg e es fuel "''error''"
        "[JStr ''Failed to flush security events:'', JError TransmissionFailure]"
        "nestedEnv env"] cc assms(3) by simp
  ultimately show ?thesis
    using fs by simp
qed

lemma consoleCall_disabled:
  "\<not> lg_enabled (lg_config lg) \<Longrightarrow> consoleCall (Suc k) lg m args env = (Inr (), lg)"
  by (simp add: consoleCall.simps logEvent.simps)

lemma demo_restarted:
  "demoRestarted =
     \<lparr> lg_config = demoLoggerConfig\<lparr> lg_enabled := False \<rparr>, eventQueue = [],
       lg_sessionId = ''s2'', lg_fingerprint = [], isOnline = True,
       retryQueue = [demoStoredBatch], flushTimerArmed = True, consoleWrapped = True,
       localStorage = Map.empty, delivered = [], beaconed = [], flushedBatches = [],
       inFlight = [], retryInFlight = [], pendingRetryTimers = 1 \<rparr>"
  by (simp add: demoRestarted_def newLogger_def loadPendingEvents_def scheduleRetry_def
      demoLoggerConfig_def Let_def)

lemma demo_after_first_retry:
  "demoAfterFirstRetry =
     \<lparr> lg_config = demoLoggerConfig\<lparr> lg_enabled := False \<rparr>, eventQueue = [],
       lg_sessionId = ''s2'', lg_fingerprint = [], isOnline = True,
       retryQueue = [demoMarkedBatch], flushTimerArmed = True, consoleWrapped = True,
       localStorage = Map.empty, delivered = [], beaconed = [], flushedBatches = [],
       inFlight = [], retryInFlight = [], pendingRetryTimers = 1 \<rparr>"
  by (simp add: demoAfterFirstRetry_def demo_restarted retryCallback_def retrySettled_def
      sendBatch_def sendBatchFulfils_def consoleCall_disabled scheduleRetry_def Let_def
      demoLoggerConfig_def demoStoredBatch_def demoMarkedBatch_def makeEvent_def demoCall_def
      getProperty_def)

lemma demo_after_second_retry:
  "demoAfterSecondRetry =
     \<lparr> lg_config = demoLoggerConfig\<lparr> lg_enabled := False \<rparr>, eventQueue = [],
       lg_sessionId = ''s2'', lg_fingerprint = [], isOnline = True,
       retryQueue = [], flushTimerArmed = True, consoleWrapped = True,
       localStorage = Map.empty, delivered = [], beaconed = [], flushedBatches = [],
       inFlight = [], retryInFlight = [], pendingRetryTimers = 0 \<rparr>"
  by (simp add: demoAfterSecondRetry_def demo_after_first_retry retryCallback_def
      retrySettled_def sendBatch_def sendBatchFulfils_def consoleCall_disabled scheduleRetry_def
      Let_def demoLoggerConfig_def demoStoredBatch_def demoMarkedBatch_def makeEvent_def
      demoCall_def getProperty_def)

text \<open>
  Claim C3 does not hold of the code. On the constructed logger, when the transmission of
  the first batch fails, the \<open>console.error\<close> of the \<open>catch\<close> clause of \<open>flush\<close> re-enters
  \<open>logEvent\<close> and overflows the stack before the batch is put on the retry queue: the
  batch is in no queue, no retry timer is armed, nothing was delivered and nothing is in
  local storage. Where the wrappers return at once (a logger constructed with
  \<open>enabled: false\<close> that finds a batch in storage), the retry callback re-queues the
  batch once, marked with \<open>retryCount = 1\<close>, and drops it at the second failed retry, with
  \<open>maxRetries = 3\<close> and local storage left empty.
\<close>

theorem failed_batch_is_dropped:
  "hd (inFlight (demoAfterFirstCall n)) = demoFirstBatch
   \<and> fst (flushSettled k (demoAfterFirstCall n) demoFirstBatch False demoEnv) = Inl StackOverflow
   \<and> retryQueue (snd (flushSettled k (demoAfterFirstCall n) demoFirstBatch False demoEnv)) = []
   \<and> pendingRetryTimers
        (snd (flushSettled k (demoAfterFirstCall n) demoFirstBatch False demoEnv)) = 0
   \<and> delivered (snd (flushSettled k (demoAfterFirstCall n) demoFirstBatch False demoEnv)) = []
   \<and> localStorage (snd (flushSettled k (demoAfterFirstCall n) demoFirstBatch False demoEnv))
        ''sandro_security_events'' = None
   \<and> retryQueue demoRestarted = [demoStoredBatch] \<and> pendingRetryTimers demoRestarted = 1
   \<and> localStorage demoRestarted ''sandro_security_events'' = None
   \<and> retryQueue demoAfterFirstRetry = [demoMarkedBatch]
   \<and> pendingRetryTimers demoAfterFirstRetry = 1
   \<and> retryQueue demoAfterSecondRetry = [] \<and> pendingRetryTimers demoAfterSecondRetry = 0
   \<and> delivered demoAfterSecondRetry = []
   \<and> localStorage demoAfterSecondRetry ''sandro_security_events'' = None
   \<and> maxRetries (lg_config demoAfterSecondRetry) = 3"
proof -
  let ?lg = "demoAfterFirstCall n"
  have en: "lg_enabled (lg_config ?lg)" "consoleWrapped ?lg"
      "endpoint (lg_config ?lg) = Some (CHR ''h'' # ''ttps://log.example/events'')"
    by (simp_all add: demo_first_call_frame demo_config_fields)
  have 1: "hd (inFlight ?lg) = demoFirstBatch"
    using demo_first_call [of n] by auto
  have 2: "fst (flushSettled k ?lg demoFirstBatch False demoEnv) = Inl StackOverflow
       \<and> retryQueue (snd (flushSettled k ?lg demoFirstBatch False demoEnv)) = []
       \<and> pendingRetryTimers (snd (flushSettled k ?lg demoFirstBatch False demoEnv)) = 0"
    using flushSettled_never_requeues [OF en(1,2), of k demoFirstBatch False demoEnv]
    by (simp add: demo_first_call_frame)
  have 3: "delivered (snd (flushSettled k ?lg demoFirstBatch False demoEnv)) = []
       \<and> localStorage (snd (flushSettled k ?lg demoFirstBatch False demoEnv))
            ''sandro_security_events'' = None"
    using flushSettled_failed_frame [OF en, of k demoFirstBatch demoEnv]
    by (simp add: demo_first_call_frame)
  have 4: "retryQueue demoRestarted = [demoStoredBatch] \<and> pendingRetryTimers demoRestarted = 1
       \<and> localStorage demoRestarted ''sandro_security_events'' = None"
    by (simp add: demo_restarted)
  have 5: "retryQueue demoAfterFirstRetry = [demoMarkedBatch]
       \<and> pendingRetryTimers demoAfterFirstRetry = 1"
    by (simp add: demo_after_first_retry)
  have 6: "retryQueue demoAfterSecondRetry = [] \<and> pendingRetryTimers demoAfterSecondRetry = 0
       \<and> delivered demoAfterSecondRetry = []
       \<and> localStorage demoAfterSecondRetry ''sandro_security_events'' = None
       \<and> maxRetries (lg_config demoAfterSecondRetry) = 3"
    by (simp add: demo_after_second_retry demoLoggerConfig_def)
  from 1 2 3 4 5 6 show ?thesis by blast
qed

end
